theory Spec2Isabelle
  imports Main "HOL-Library.Sublist"
begin

text \<open>
  A model of the posting session of the deal poster: the daily counters and the choice
  of categories (\<^verbatim>\<open>lib/scheduler.js\<close>), the tracker of posted products
  (\<^verbatim>\<open>lib/dedupe.js\<close>), the transport (\<^verbatim>\<open>lib/telegram.js\<close>) and the posting loop
  (\<^verbatim>\<open>api/run.js\<close>). The state of a module is passed in and out of its functions; the
  clock, the file system, the random numbers and the Bot API are arguments. The
  definitions come first, the statements about them follow.
\<close>

section \<open>Values shared by the modules\<close>

text \<open>
  Strings are byte lists. \<^verbatim>\<open>String.prototype.toLowerCase\<close> is modelled on ASCII: the
  letters A..Z move to a..z, every other byte stays. \<^verbatim>\<open>String.prototype.includes\<close> is the
  contiguous-sublist test.
\<close>

definition toLowerChar :: "char \<Rightarrow> char" where
  "toLowerChar ch =
     (case map_of (zip ''ABCDEFGHIJKLMNOPQRSTUVWXYZ'' ''abcdefghijklmnopqrstuvwxyz'') ch of
        None \<Rightarrow> ch
      | Some l \<Rightarrow> l)"

definition toLowerCase :: "string \<Rightarrow> string" where
  "toLowerCase s = map toLowerChar s"

definition str_includes :: "string \<Rightarrow> string \<Rightarrow> bool" where
  "str_includes s needle = sublist needle s"

text \<open>
  The wall clock is the number of milliseconds since the epoch, as \<^verbatim>\<open>Date.now()\<close> gives
  it. A synchronous function of the modules receives the reading of the clock as its
  argument \<open>now\<close>: the simulated clock does not move inside one synchronous call.

  \<^verbatim>\<open>new Date().toISOString().split('T')[0]\<close> is the UTC calendar day as text. The day
  text and the day number \<open>now div 86400000\<close> determine each other, and the code only
  compares day texts for equality, so the model keeps the day number.
\<close>

definition todayOf :: "int \<Rightarrow> int" where
  "todayOf now = now div 86400000"

text \<open>
  A JavaScript number that may be \<^verbatim>\<open>NaN\<close> or \<^verbatim>\<open>undefined\<close> is an \<open>int option\<close>;
  \<^verbatim>\<open>a >= b\<close> is false as soon as one side is not a number.
\<close>

definition jsGe :: "int option \<Rightarrow> int option \<Rightarrow> bool" where
  "jsGe a b = (case a of None \<Rightarrow> False | Some x \<Rightarrow> (case b of None \<Rightarrow> False | Some y \<Rightarrow> y \<le> x))"

text \<open>\<^verbatim>\<open>x || d\<close> on a configured number: a missing entry and the number 0 are both falsy.\<close>

definition orDefault :: "nat option \<Rightarrow> nat \<Rightarrow> nat" where
  "orDefault v d = (case v of None \<Rightarrow> d | Some n \<Rightarrow> if n = 0 then d else n)"

subsection \<open>parseInt with radix 10\<close>

definition isSpaceChar :: "char \<Rightarrow> bool" where
  "isSpaceChar ch = (of_char ch \<in> {9::nat, 10, 11, 12, 13, 32})"

definition isDigitChar :: "char \<Rightarrow> bool" where
  "isDigitChar ch = ((48::nat) \<le> of_char ch \<and> of_char ch \<le> (57::nat))"

definition digitsValue :: "string \<Rightarrow> nat" where
  "digitsValue ds = foldl (\<lambda>acc ch. 10 * acc + (of_char ch - 48)) 0 ds"

definition parseInt :: "string \<Rightarrow> int option" where
  "parseInt s =
     (let t = dropWhile isSpaceChar s;
          neg = (case t of [] \<Rightarrow> False | ch # _ \<Rightarrow> ch = CHR ''-'');
          u = (case t of [] \<Rightarrow> [] | ch # r \<Rightarrow> if ch = CHR ''-'' \<or> ch = CHR ''+'' then r else t);
          ds = takeWhile isDigitChar u
      in if ds = [] then None
         else Some (if neg then - int (digitsValue ds) else int (digitsValue ds)))"

section \<open>Configuration and environment\<close>

text \<open>
  The files \<^verbatim>\<open>config/limits.json\<close> and \<^verbatim>\<open>config/categories.json\<close> are not part of the
  sources at hand; they are parameters of the model. Their numbers are non-negative
  integers. \<open>dailyLimits\<close> is the JSON object of that name (keys \<^verbatim>\<open>total\<close>,
  \<^verbatim>\<open>saleMode\<close>, \<^verbatim>\<open>perCategory\<close> and one key per source); \<open>posting\<close> is \<open>None\<close> when
  the section is absent.
\<close>

record posting =
  postsPerSlot :: "nat option"
  retryOnFailure :: bool
  maxRetries :: "nat option"

record limits =
  dailyLimits :: "string \<rightharpoonup> nat"
  posting :: "posting option"
  ttlDays :: "nat option"
  maxTrackedProducts :: "nat option"

record env =
  SALE_MODE :: "string option"
  OVERRIDE_TOTAL_LIMIT :: "string option"
  credentials :: bool

section \<open>scheduler.js: the daily counters\<close>

text \<open>
  \<^verbatim>\<open>dailyCounters\<close> is one object with the properties \<^verbatim>\<open>flipkart\<close>, \<^verbatim>\<open>amazon\<close>,
  \<^verbatim>\<open>total\<close>, \<^verbatim>\<open>byCategory\<close> and \<^verbatim>\<open>date\<close>. \<^verbatim>\<open>dailyCounters[source] = ...\<close> with a
  source of another name adds a property; \<open>extra\<close> holds those.
\<close>

record counters =
  flipkart :: nat
  amazon :: nat
  total :: nat
  byCategory :: "string \<rightharpoonup> nat"
  date :: "int option"
  extra :: "string \<rightharpoonup> nat"

definition resetCounters :: counters where
  "resetCounters =
     \<lparr>flipkart = 0, amazon = 0, total = 0, byCategory = Map.empty, date = None, extra = Map.empty\<rparr>"

definition initCounters :: "bool \<Rightarrow> int \<Rightarrow> counters \<Rightarrow> counters" where
  "initCounters force now c =
     (let today = todayOf now
      in if force \<or> date c \<noteq> Some today
         then \<lparr>flipkart = 0, amazon = 0, total = 0, byCategory = Map.empty,
               date = Some today, extra = Map.empty\<rparr>
         else c)"

definition isSaleMode :: "env \<Rightarrow> bool" where
  "isSaleMode e = (case SALE_MODE e of None \<Rightarrow> False | Some v \<Rightarrow> toLowerCase v = ''true'')"

definition getTotalLimit :: "env \<Rightarrow> limits \<Rightarrow> int option" where
  "getTotalLimit e lim =
     (let override = (case OVERRIDE_TOTAL_LIMIT e of None \<Rightarrow> [] | Some v \<Rightarrow> v)
      in if override \<noteq> [] then parseInt override
         else if isSaleMode e then map_option int (dailyLimits lim ''saleMode'')
         else map_option int (dailyLimits lim ''total''))"

text \<open>
  The values a property of \<^verbatim>\<open>dailyCounters\<close> or of \<^verbatim>\<open>limits.dailyLimits\<close> can have:
  a number (a count or a cap), a text (what an object or a function turns into when it
  is compared: \<^verbatim>\<open>[object Object]\<close>, \<^verbatim>\<open>function toString() { [native code] }\<close>), the text
  of the day stamp (\<open>DayText\<close>, not spelled out: the model keeps the day number), or
  \<^verbatim>\<open>undefined\<close>.

  \<^verbatim>\<open>a >= b\<close> compares two texts as strings, by character codes. In every other case both
  sides are turned into numbers, and the comparison is false when one of them is
  \<^verbatim>\<open>NaN\<close>. None of the texts above reads as a number, and the text of the day stamp is
  only ever compared with a number.
\<close>

datatype jsval = Num nat | Text string | DayText | Undefined

fun strGe :: "string \<Rightarrow> string \<Rightarrow> bool" where
  "strGe a [] = True"
| "strGe [] (y # ys) = False"
| "strGe (x # xs) (y # ys) =
     (if x = y then strGe xs ys else (of_char y :: nat) < of_char x)"

definition toNumber :: "jsval \<Rightarrow> nat option" where
  "toNumber v = (case v of Num n \<Rightarrow> Some n | Text t \<Rightarrow> None | DayText \<Rightarrow> None | Undefined \<Rightarrow> None)"

definition propGe :: "jsval \<Rightarrow> jsval \<Rightarrow> bool" where
  "propGe a b =
     (case a of
        Text s \<Rightarrow> (case b of Text t \<Rightarrow> strGe s t | _ \<Rightarrow> False)
      | _ \<Rightarrow> (case toNumber a of
                None \<Rightarrow> False
              | Some x \<Rightarrow> (case toNumber b of None \<Rightarrow> False | Some y \<Rightarrow> y \<le> x)))"

text \<open>
  Every object inherits the members of Object.prototype. Reading one of these names from
  an object that has no property of its own under the name gives the inherited member:
  a function, or for \<^verbatim>\<open>__proto__\<close> the prototype object itself.
\<close>

definition protoNames :: "string list" where
  "protoNames =
     [''__proto__'', ''constructor'', ''hasOwnProperty'', ''isPrototypeOf'',
      ''propertyIsEnumerable'', ''toLocaleString'', ''toString'', ''valueOf'',
      ''__defineGetter__'', ''__defineSetter__'', ''__lookupGetter__'', ''__lookupSetter__'']"

definition protoText :: "string \<Rightarrow> string" where
  "protoText member =
     (if member = ''__proto__'' then ''[object Object]''
      else if member = ''constructor'' then ''function Object() { [native code] }''
      else ''function '' @ member @ ''() { [native code] }'')"

text \<open>
  \<^verbatim>\<open>dailyCounters[source]\<close>. The day stamp \<^verbatim>\<open>null\<close> counts as the number 0. Under a name
  of Object.prototype the value is the inherited member; after \<open>incrementCounters\<close> with
  such a source it is the text of that member with the character 1 appended once per
  call, and every comparison that the program makes gives the same answer for both, so
  the model keeps the text of the member.
\<close>

definition sourceCount :: "counters \<Rightarrow> string \<Rightarrow> jsval" where
  "sourceCount c source =
     (if source = ''flipkart'' then Num (flipkart c)
      else if source = ''amazon'' then Num (amazon c)
      else if source = ''total'' then Num (total c)
      else if source = ''byCategory'' then Text ''[object Object]''
      else if source = ''date'' then (case date c of None \<Rightarrow> Num 0 | Some d \<Rightarrow> DayText)
      else if source \<in> set protoNames then Text (protoText source)
      else (case extra c source of None \<Rightarrow> Undefined | Some n \<Rightarrow> Num n))"

text \<open>
  \<^verbatim>\<open>dailyCounters.byCategory[categoryKey] || 0\<close>: the table is a plain object, so the
  names of Object.prototype give the inherited member here as well.
\<close>

definition categoryCount :: "counters \<Rightarrow> string \<Rightarrow> jsval" where
  "categoryCount c categoryKey =
     (if categoryKey \<in> set protoNames then Text (protoText categoryKey)
      else Num (case byCategory c categoryKey of None \<Rightarrow> 0 | Some n \<Rightarrow> n))"

text \<open>
  \<^verbatim>\<open>limits.dailyLimits[source] || 10\<close>: a configured cap other than 0, else the inherited
  member when the source names one (it is truthy, so the default is not taken), else 10.
\<close>

definition sourceLimitOf :: "limits \<Rightarrow> string \<Rightarrow> jsval" where
  "sourceLimitOf lim source =
     (case dailyLimits lim source of
        Some n \<Rightarrow> Num (if n = 0 then 10 else n)
      | None \<Rightarrow> if source \<in> set protoNames then Text (protoText source) else Num 10)"

definition categoryLimitOf :: "limits \<Rightarrow> nat" where
  "categoryLimitOf lim = orDefault (dailyLimits lim ''perCategory'') 4"

record verdict =
  allowed :: bool
  reason :: string

definition canPost :: "env \<Rightarrow> limits \<Rightarrow> int \<Rightarrow> string \<Rightarrow> string \<Rightarrow> counters \<Rightarrow> verdict \<times> counters" where
  "canPost e lim now source categoryKey c0 =
     (let c = initCounters False now c0;
          totalLimit = getTotalLimit e lim;
          sourceLimit = sourceLimitOf lim source;
          categoryLimit = categoryLimitOf lim
      in if jsGe (Some (int (total c))) totalLimit
         then (\<lparr>allowed = False, reason = ''Daily total limit reached''\<rparr>, c)
         else if propGe (sourceCount c source) sourceLimit
         then (\<lparr>allowed = False, reason = ''Daily '' @ source @ '' limit reached''\<rparr>, c)
         else if propGe (categoryCount c categoryKey) (Num categoryLimit)
         then (\<lparr>allowed = False, reason = ''Category '' @ categoryKey @ '' limit reached''\<rparr>, c)
         else (\<lparr>allowed = True, reason = ''OK''\<rparr>, c))"

text \<open>
  \<^verbatim>\<open>incrementCounters\<close>. \<^verbatim>\<open>dailyCounters[source] = (dailyCounters[source] || 0) + 1\<close> adds
  one to a number. Under the name \<^verbatim>\<open>date\<close> it turns the day stamp into a text that is no
  day, which the next \<open>initCounters\<close> treats like a stale stamp. Under a name of
  Object.prototype it appends the character 1 to a text (see \<open>sourceCount\<close>), and
  \<^verbatim>\<open>__proto__\<close> ignores the assignment; the same holds for such a category key. The
  source name \<^verbatim>\<open>byCategory\<close>, which would replace the category table by a text, is
  outside the model.
\<close>

definition bumpSource :: "string \<Rightarrow> counters \<Rightarrow> counters" where
  "bumpSource source c =
     (if source = ''flipkart'' then c\<lparr>flipkart := flipkart c + 1\<rparr>
      else if source = ''amazon'' then c\<lparr>amazon := amazon c + 1\<rparr>
      else if source = ''total'' then c\<lparr>total := total c + 1\<rparr>
      else if source = ''byCategory'' then c
      else if source = ''date'' then c\<lparr>date := None\<rparr>
      else if source \<in> set protoNames then c
      else c\<lparr>extra := (extra c)(source \<mapsto> (case extra c source of None \<Rightarrow> 0 | Some n \<Rightarrow> n) + 1)\<rparr>)"

definition bumpCategory :: "string \<Rightarrow> counters \<Rightarrow> counters" where
  "bumpCategory categoryKey c =
     (if categoryKey \<in> set protoNames then c
      else c\<lparr>byCategory :=
             (byCategory c)(categoryKey \<mapsto> (case byCategory c categoryKey of None \<Rightarrow> 0 | Some n \<Rightarrow> n) + 1)\<rparr>)"

definition incrementCounters :: "int \<Rightarrow> string \<Rightarrow> string \<Rightarrow> counters \<Rightarrow> counters" where
  "incrementCounters now source categoryKey c0 =
     (let c = initCounters False now c0;
          c1 = c\<lparr>total := total c + 1\<rparr>;
          c2 = bumpSource source c1
      in bumpCategory categoryKey c2)"


definition getPostsForSession :: "env \<Rightarrow> limits \<Rightarrow> int \<Rightarrow> counters \<Rightarrow> int option \<times> counters" where
  "getPostsForSession e lim now c0 =
     (let c = initCounters False now c0;
          perSlot = orDefault (case posting lim of None \<Rightarrow> None | Some p \<Rightarrow> postsPerSlot p) 4;
          totalLimit = getTotalLimit e lim;
          remaining = map_option (\<lambda>t. t - int (total c)) totalLimit
      in (map_option (\<lambda>r. min (int perSlot) r) remaining, c))"

text \<open>A sequence of \<^verbatim>\<open>incrementCounters\<close> calls, each with the clock reading of its call.\<close>

fun recordPosts :: "(int \<times> string \<times> string) list \<Rightarrow> counters \<Rightarrow> counters" where
  "recordPosts [] c = c"
| "recordPosts ((now, source, categoryKey) # calls) c =
     recordPosts calls (incrementCounters now source categoryKey c)"

definition sumPerSource :: "counters \<Rightarrow> nat" where
  "sumPerSource c = flipkart c + amazon c"




text \<open>
  The limits of the README (15 posts a day, 30 in sale mode, 8 from Flipkart, 7 from
  Amazon, 4 per category) and an environment without overrides, as sample inputs.
\<close>

definition readmeLimits :: limits where
  "readmeLimits =
     \<lparr>dailyLimits = [''total'' \<mapsto> 15, ''saleMode'' \<mapsto> 30, ''flipkart'' \<mapsto> 8,
                     ''amazon'' \<mapsto> 7, ''perCategory'' \<mapsto> 4],
      posting = Some \<lparr>postsPerSlot = Some 4, retryOnFailure = True, maxRetries = Some 2\<rparr>,
      ttlDays = Some 7, maxTrackedProducts = Some 1000\<rparr>"

definition plainEnv :: env where
  "plainEnv = \<lparr>SALE_MODE = None, OVERRIDE_TOTAL_LIMIT = None, credentials = True\<rparr>"

section \<open>dedupe.js: the posted products\<close>

text \<open>
  \<^verbatim>\<open>postedProducts\<close> is a JavaScript \<^verbatim>\<open>Map\<close> from key to timestamp: an association list
  in insertion order with distinct keys. \<^verbatim>\<open>Map.set\<close> replaces the value of a present key
  in place and appends an absent one; \<^verbatim>\<open>Map.delete\<close> removes the entry.
\<close>

type_synonym tracked = "(string \<times> int) list"

fun mapSet :: "string \<Rightarrow> int \<Rightarrow> tracked \<Rightarrow> tracked" where
  "mapSet k v [] = [(k, v)]"
| "mapSet k v ((k', v') # m) = (if k' = k then (k, v) # m else (k', v') # mapSet k v m)"

definition mapDelete :: "string \<Rightarrow> tracked \<Rightarrow> tracked" where
  "mapDelete k m = filter (\<lambda>(k', v'). k' \<noteq> k) m"

definition TTL_DAYS :: "limits \<Rightarrow> nat" where
  "TTL_DAYS lim = orDefault (ttlDays lim) 7"

definition MAX_TRACKED :: "limits \<Rightarrow> nat" where
  "MAX_TRACKED lim = orDefault (maxTrackedProducts lim) 1000"

definition TTL_MS :: "limits \<Rightarrow> int" where
  "TTL_MS lim = int (TTL_DAYS lim) * 24 * 60 * 60 * 1000"

text \<open>
  The durable store: the data directory and the file \<^verbatim>\<open>posted.json\<close>. A file holds a JSON
  object of timestamps (its members in the order of the text, with distinct keys), or
  text that \<^verbatim>\<open>JSON.parse\<close> and \<^verbatim>\<open>Object.entries\<close> reject. The faults of the file system
  are an argument: whether creating the directory, reading the file and writing the file
  fail.

  An object enumerates its keys that are array indices first (a decimal number below
  \<open>2^32 - 1\<close> written without leading zeros), in ascending order, then the other keys in
  the order in which they were added. This is the order in which
  \<^verbatim>\<open>JSON.stringify(Object.fromEntries(postedProducts))\<close> writes the tracker and in which
  \<^verbatim>\<open>Object.entries(JSON.parse(...))\<close> reads a file.
\<close>

definition isArrayIndex :: "string \<Rightarrow> bool" where
  "isArrayIndex k =
     (k \<noteq> [] \<and> list_all isDigitChar k \<and> (k = ''0'' \<or> hd k \<noteq> CHR ''0'')
      \<and> digitsValue k < 4294967295)"

definition objectOrder :: "(string \<times> int) list \<Rightarrow> (string \<times> int) list" where
  "objectOrder entries =
     sort_key (\<lambda>(k, v). digitsValue k) (filter (\<lambda>(k, v). isArrayIndex k) entries)
     @ filter (\<lambda>(k, v). \<not> isArrayIndex k) entries"

datatype stored = Object tracked | Unreadable

record disk =
  dirExists :: bool
  postedFile :: "stored option"

datatype write_outcome = Written | WriteFailedUntouched | WriteFailedTruncated

record faults =
  mkdirFails :: bool
  readFails :: bool
  writeResult :: write_outcome

definition noFaults :: faults where
  "noFaults = \<lparr>mkdirFails = False, readFails = False, writeResult = Written\<rparr>"

text \<open>\<open>ensureDataDir\<close>: \<open>None\<close> when \<^verbatim>\<open>mkdirSync\<close> throws.\<close>

definition ensureDataDir :: "faults \<Rightarrow> disk \<Rightarrow> disk option" where
  "ensureDataDir f d =
     (if \<not> dirExists d then (if mkdirFails f then None else Some (d\<lparr>dirExists := True\<rparr>))
      else Some d)"

definition cleanupExpired :: "limits \<Rightarrow> int \<Rightarrow> tracked \<Rightarrow> tracked" where
  "cleanupExpired lim now m = filter (\<lambda>(k, timestamp). \<not> (TTL_MS lim \<le> now - timestamp)) m"

definition loadFromFile :: "limits \<Rightarrow> int \<Rightarrow> faults \<Rightarrow> tracked \<times> disk \<Rightarrow> tracked \<times> disk" where
  "loadFromFile lim now f st =
     (case st of (m, d) \<Rightarrow>
       (case ensureDataDir f d of
          None \<Rightarrow> ([], d)
        | Some d1 \<Rightarrow>
           (case postedFile d1 of
              None \<Rightarrow> (m, d1)
            | Some content \<Rightarrow>
               if readFails f then ([], d1)
               else (case content of
                       Unreadable \<Rightarrow> ([], d1)
                     | Object entries \<Rightarrow>
                         (filter (\<lambda>(k, timestamp). now - timestamp < TTL_MS lim)
                            (objectOrder entries), d1)))))"

definition writeFile :: "faults \<Rightarrow> tracked \<Rightarrow> disk \<Rightarrow> disk" where
  "writeFile f entries d =
     (case writeResult f of
        Written \<Rightarrow> d\<lparr>postedFile := Some (Object (objectOrder entries))\<rparr>
      | WriteFailedUntouched \<Rightarrow> d
      | WriteFailedTruncated \<Rightarrow> d\<lparr>postedFile := Some Unreadable\<rparr>)"

definition saveToFile :: "limits \<Rightarrow> int \<Rightarrow> faults \<Rightarrow> tracked \<times> disk \<Rightarrow> tracked \<times> disk" where
  "saveToFile lim now f st =
     (case st of (m, d) \<Rightarrow>
       (case ensureDataDir f d of
          None \<Rightarrow> (m, d)
        | Some d1 \<Rightarrow>
           (let m1 = cleanupExpired lim now m;
                m2 = (if MAX_TRACKED lim < length m1
                      then (let entries = sort_key snd m1
                            in drop (length entries - MAX_TRACKED lim) entries)
                      else m1)
            in (m2, writeFile f m2 d1))))"

definition isPosted :: "limits \<Rightarrow> int \<Rightarrow> string \<Rightarrow> tracked \<Rightarrow> bool \<times> tracked" where
  "isPosted lim now productId m =
     (if productId = [] then (False, m)
      else (let normalizedId = toLowerCase productId
            in case map_of m normalizedId of
                 Some timestamp \<Rightarrow>
                   (let age = now - timestamp
                    in if age < TTL_MS lim then (True, m)
                       else (False, mapDelete normalizedId m))
               | None \<Rightarrow> (False, m)))"

text \<open>
  A product identifier is \<open>None\<close> when the property is \<^verbatim>\<open>undefined\<close>. The template
  literal and \<^verbatim>\<open>String(...)\<close> print that as the text \<^verbatim>\<open>undefined\<close>; \<^verbatim>\<open>!productId\<close> holds for
  it and for the empty string.
\<close>

definition jsString :: "string option \<Rightarrow> string" where
  "jsString v = (case v of None \<Rightarrow> ''undefined'' | Some s \<Rightarrow> s)"

definition falsy :: "string option \<Rightarrow> bool" where
  "falsy v = (case v of None \<Rightarrow> True | Some s \<Rightarrow> s = [])"

definition uniqueKey :: "string option \<Rightarrow> string \<Rightarrow> string" where
  "uniqueKey productId src =
     (if src \<noteq> [] then toLowerCase (toLowerCase src @ ''_'' @ jsString productId)
      else toLowerCase (jsString productId))"

definition markPosted :: "int \<Rightarrow> string option \<Rightarrow> string \<Rightarrow> tracked \<Rightarrow> tracked" where
  "markPosted now productId src m =
     (if falsy productId then m else mapSet (uniqueKey productId src) now m)"

definition isDuplicate :: "limits \<Rightarrow> int \<Rightarrow> string option \<Rightarrow> string \<Rightarrow> tracked \<Rightarrow> bool \<times> tracked" where
  "isDuplicate lim now productId src m = isPosted lim now (uniqueKey productId src) m"

record product =
  id' :: "string option"
  name :: "string option"
  source :: string
  categoryKey :: string
  imageUrl :: "string option"

fun filterDuplicates :: "limits \<Rightarrow> int \<Rightarrow> product list \<Rightarrow> tracked \<Rightarrow> product list \<times> tracked" where
  "filterDuplicates lim now [] m = ([], m)"
| "filterDuplicates lim now (p # ps) m =
     (if falsy (id' p) then filterDuplicates lim now ps m
      else (case isDuplicate lim now (id' p) (source p) m of
              (dup, m1) \<Rightarrow>
                (case filterDuplicates lim now ps m1 of
                   (kept, m2) \<Rightarrow> (if dup then kept else p # kept, m2))))"

definition getTrackedCount :: "tracked \<Rightarrow> nat" where
  "getTrackedCount m = length m"

text \<open>
  What \<^verbatim>\<open>save()\<close> keeps, in the words of the specification: the entries that have not
  expired, and of those only the newest \<open>MAX_TRACKED\<close> when there are more.
\<close>

definition keptBySave :: "limits \<Rightarrow> int \<Rightarrow> tracked \<Rightarrow> tracked" where
  "keptBySave lim now m =
     (let live = filter (\<lambda>(k, t). now - t < TTL_MS lim) m
      in if MAX_TRACKED lim < length live
         then drop (length live - MAX_TRACKED lim) (sort_key snd live)
         else live)"

section \<open>scheduler.js: the weighted choice of categories\<close>

text \<open>
  \<^verbatim>\<open>categories.json\<close> is a parameter: the entries of the object in the order of
  \<^verbatim>\<open>Object.keys\<close>. Only the weight of a category matters here; the other properties of a
  category live in the extension of the record.
\<close>

record category =
  weight :: "nat option"

type_synonym categories = "(string \<times> category) list"

definition buildWeighted :: "categories \<Rightarrow> string list" where
  "buildWeighted cats =
     concat (map (\<lambda>(key, info). replicate (orDefault (weight info) 1) key) cats)"

text \<open>
  \<^verbatim>\<open>Math.random()\<close> is a number \<open>u\<close> with \<open>0 \<le> u < 1\<close>. A sample is given by a natural
  number \<open>r\<close> and stands for \<open>u = (r mod 2^53) / 2^53\<close>; \<^verbatim>\<open>Math.floor(u * length)\<close> is then
  computed exactly. The successive samples of a run are a sequence \<open>rnd 0, rnd 1, ...\<close>.
\<close>

definition randomIndex :: "nat \<Rightarrow> nat \<Rightarrow> nat" where
  "randomIndex r len = ((r mod 2 ^ 53) * len) div 2 ^ 53"

function selectLoop :: "nat \<Rightarrow> (nat \<Rightarrow> nat) \<Rightarrow> nat \<Rightarrow> string list \<Rightarrow> string list \<Rightarrow> string list" where
  "selectLoop count rnd i selected weighted =
     (if length selected < count \<and> 0 < length weighted
      then (let index = randomIndex (rnd i) (length weighted);
                chosen = weighted ! index;
                selected1 = (if chosen \<in> set selected then selected else selected @ [chosen]);
                weighted1 = filter (\<lambda>w. w \<noteq> chosen) weighted
            in selectLoop count rnd (Suc i) selected1 weighted1)
      else selected)"
  by pat_completeness auto
termination
proof (relation "measure (\<lambda>(count, rnd, i, selected, weighted). length weighted)")
  show "wf (measure (\<lambda>(count, rnd, i, selected, weighted). length weighted))"
    by simp
next
  fix count :: nat and rnd :: "nat \<Rightarrow> nat" and i :: nat
    and selected weighted :: "string list" and index :: nat and chosen :: string
    and selected1 weighted1 :: "string list"
  assume c: "length selected < count \<and> 0 < length weighted"
    and ix: "index = randomIndex (rnd i) (length weighted)"
    and ch: "chosen = weighted ! index"
    and w1: "weighted1 = filter (\<lambda>w. w \<noteq> chosen) weighted"
  have "(rnd i mod 2 ^ 53) * length weighted < 2 ^ 53 * length weighted"
    using c by simp
  then have "index < length weighted"
    unfolding ix randomIndex_def
    by (simp add: less_mult_imp_div_less mult.commute)
  then have "chosen \<in> set weighted" using ch by simp
  then have "length weighted1 < length weighted"
    unfolding w1 by (simp add: length_filter_less)
  then show "((count, rnd, Suc i, selected1, weighted1), (count, rnd, i, selected, weighted))
               \<in> measure (\<lambda>(count, rnd, i, selected, weighted). length weighted)"
    by simp
qed

definition selectCategories :: "categories \<Rightarrow> (nat \<Rightarrow> nat) \<Rightarrow> nat \<Rightarrow> string list" where
  "selectCategories cats rnd count = selectLoop count rnd 0 [] (buildWeighted cats)"

text \<open>Three categories with weights 3, 2 and the default 1, as a sample input.\<close>

definition sampleCategories :: categories where
  "sampleCategories =
     [(''mobiles'', \<lparr>weight = Some 3\<rparr>), (''laptops'', \<lparr>weight = Some 2\<rparr>),
      (''audio'', \<lparr>weight = None\<rparr>)]"

section \<open>telegram.js: the transport\<close>

text \<open>
  The asynchronous world. A run suspends at its requests to the Bot API and at its
  timers; \<open>step\<close> counts the suspensions so far. \<open>clock\<close> tells the reading of the wall
  clock after that many suspensions (the clock moves only while the run is suspended),
  and \<open>api\<close> tells how the request made at that step ends: with a response whose \<^verbatim>\<open>ok\<close>
  is true, or in an error with the given message (a network error, or
  \<^verbatim>\<open>data.description\<close> of a response that is not ok, such as
  \<^verbatim>\<open>Too Many Requests: retry after 30\<close>).
\<close>

datatype reply = Ok | Throws string

record world =
  step :: nat
  clock :: "nat \<Rightarrow> int"
  api :: "nat \<Rightarrow> reply"

definition nowOf :: "world \<Rightarrow> int" where
  "nowOf w = clock w (step w)"

definition await :: "world \<Rightarrow> world" where
  "await w = w\<lparr>step := Suc (step w)\<rparr>"

definition request :: "world \<Rightarrow> reply \<times> world" where
  "request w = (api w (step w), await w)"

text \<open>
  A function that may throw returns \<open>Inl message\<close> for the thrown error and \<open>Inr\<close> for
  its result. \<open>getCredentials\<close> throws when the token or the channel is not configured.
\<close>

definition getCredentials :: "env \<Rightarrow> string + unit" where
  "getCredentials e =
     (if \<not> credentials e then Inl ''Telegram credentials not configured'' else Inr ())"

definition sendMessage :: "env \<Rightarrow> world \<Rightarrow> (string + unit) \<times> world" where
  "sendMessage e w =
     (case getCredentials e of
        Inl err \<Rightarrow> (Inl err, w)
      | Inr _ \<Rightarrow>
          (case request w of
             (Ok, w1) \<Rightarrow> (Inr (), w1)
           | (Throws message, w1) \<Rightarrow> (Inl message, w1)))"

text \<open>
  The loop \<^verbatim>\<open>for (attempt = 0; attempt <= maxRetries; attempt++)\<close> of
  \<open>sendMessageWithRetry\<close>, by the number of attempts still to make; the result is whether a
  response was returned (\<open>False\<close> is \<^verbatim>\<open>null\<close>). The 2000 ms timer runs when another
  attempt follows.
\<close>

fun retryLoop :: "env \<Rightarrow> nat \<Rightarrow> world \<Rightarrow> bool \<times> world" where
  "retryLoop e 0 w = (False, w)"
| "retryLoop e (Suc remaining) w =
     (case sendMessage e w of
        (Inr _, w1) \<Rightarrow> (True, w1)
      | (Inl message, w1) \<Rightarrow>
          if str_includes message ''Too Many Requests'' then (False, w1)
          else if 0 < remaining then retryLoop e remaining (await w1)
          else retryLoop e remaining w1)"

text \<open>
  \<^verbatim>\<open>limits.posting.retryOnFailure\<close> throws a TypeError when the section \<^verbatim>\<open>posting\<close> is
  absent. With \<^verbatim>\<open>maxRetries\<close> undefined the loop condition is false at once.
\<close>

definition attemptsOf :: "posting \<Rightarrow> nat" where
  "attemptsOf p =
     (if retryOnFailure p then (case maxRetries p of None \<Rightarrow> 0 | Some n \<Rightarrow> Suc n) else Suc 0)"

definition sendMessageWithRetry :: "limits \<Rightarrow> env \<Rightarrow> world \<Rightarrow> (string + bool) \<times> world" where
  "sendMessageWithRetry lim e w =
     (case posting lim of
        None \<Rightarrow> (Inl ''Cannot read properties of undefined (reading 'retryOnFailure')'', w)
      | Some p \<Rightarrow> (case retryLoop e (attemptsOf p) w of (sent, w1) \<Rightarrow> (Inr sent, w1)))"

definition sendPhoto :: "env \<Rightarrow> world \<Rightarrow> (string + bool) \<times> world" where
  "sendPhoto e w =
     (case getCredentials e of
        Inl err \<Rightarrow> (Inl err, w)
      | Inr _ \<Rightarrow>
          (case request w of
             (Ok, w1) \<Rightarrow> (Inr True, w1)
           | (Throws message, w1) \<Rightarrow> (Inr False, w1)))"

text \<open>The body of the \<^verbatim>\<open>try\<close> block of \<open>postDeal\<close>, and \<open>postDeal\<close> with its \<^verbatim>\<open>catch\<close>.\<close>

definition postDealBody :: "limits \<Rightarrow> env \<Rightarrow> string option \<Rightarrow> world \<Rightarrow> (string + bool) \<times> world" where
  "postDealBody lim e url w =
     (if \<not> falsy url \<and> prefix ''http'' (jsString url)
      then (case sendPhoto e w of
              (Inl err, w1) \<Rightarrow> (Inl err, w1)
            | (Inr True, w1) \<Rightarrow> (Inr True, w1)
            | (Inr False, w1) \<Rightarrow> sendMessageWithRetry lim e w1)
      else sendMessageWithRetry lim e w)"

definition postDeal :: "limits \<Rightarrow> env \<Rightarrow> string option \<Rightarrow> world \<Rightarrow> (string + bool) \<times> world" where
  "postDeal lim e url w =
     (case postDealBody lim e url w of
        (Inl err, w1) \<Rightarrow> (Inr False, w1)
      | (Inr success, w1) \<Rightarrow> (Inr success, w1))"

definition postDelay :: "limits \<Rightarrow> world \<Rightarrow> (string + unit) \<times> world" where
  "postDelay lim w =
     (case posting lim of
        None \<Rightarrow> (Inl ''Cannot read properties of undefined (reading 'delayBetweenPostsMs')'', w)
      | Some p \<Rightarrow> (Inr (), await w))"

section \<open>run.js: the posting loop\<close>

text \<open>
  \<^verbatim>\<open>results\<close>, with the properties \<^verbatim>\<open>flipkart\<close> and \<^verbatim>\<open>amazon\<close> written \<open>flipkart'\<close> and
  \<open>amazon'\<close>. \<^verbatim>\<open>results[product.source]++\<close> counts under the name of the source; a source
  of another name than the numeric properties of \<^verbatim>\<open>results\<close> leaves the numbers as they
  are (JavaScript stores \<^verbatim>\<open>NaN\<close> under that name; the name \<^verbatim>\<open>errors\<close> is outside the model).
\<close>

record results =
  posted :: nat
  skipped :: nat
  failed :: nat
  flipkart' :: nat
  amazon' :: nat
  errors :: "string list"

definition noResults :: results where
  "noResults = \<lparr>posted = 0, skipped = 0, failed = 0, flipkart' = 0, amazon' = 0, errors = []\<rparr>"

definition bumpResult :: "string \<Rightarrow> results \<Rightarrow> results" where
  "bumpResult src r =
     (if src = ''flipkart'' then r\<lparr>flipkart' := flipkart' r + 1\<rparr>
      else if src = ''amazon'' then r\<lparr>amazon' := amazon' r + 1\<rparr>
      else if src = ''posted'' then r\<lparr>posted := posted r + 1\<rparr>
      else if src = ''skipped'' then r\<lparr>skipped := skipped r + 1\<rparr>
      else if src = ''failed'' then r\<lparr>failed := failed r + 1\<rparr>
      else r)"

text \<open>The state of the two modules, \<^verbatim>\<open>dailyCounters\<close> and \<^verbatim>\<open>postedProducts\<close>.\<close>

record modules =
  dailyCounters :: counters
  postedProducts :: tracked

datatype flow = Continue | Break

text \<open>The \<^verbatim>\<open>catch\<close> block of the loop body.\<close>

definition onError :: "string \<Rightarrow> results \<Rightarrow> flow \<times> results" where
  "onError message r =
     (let r1 = r\<lparr>failed := failed r + 1, errors := errors r @ [message]\<rparr>
      in if str_includes message ''Too Many Requests'' then (Break, r1) else (Continue, r1))"

text \<open>
  One pass through the body of \<^verbatim>\<open>for (const product of products)\<close>.
  \<^verbatim>\<open>formatter.formatProduct\<close> is not among the sources at hand; it only builds the message
  text, which the model of the transport does not look at. \<^verbatim>\<open>product.name.substring\<close>
  throws a TypeError when the product has no name.
\<close>

definition postOne :: "limits \<Rightarrow> env \<Rightarrow> int option \<Rightarrow> product \<Rightarrow> results \<times> modules \<times> world
    \<Rightarrow> flow \<times> results \<times> modules \<times> world" where
  "postOne lim e postsTarget p st =
     (case st of (r, mods, w) \<Rightarrow>
       if jsGe (Some (int (posted r))) postsTarget then (Break, r, mods, w)
       else
         (case canPost e lim (nowOf w) (source p) (categoryKey p) (dailyCounters mods) of
            (v, c1) \<Rightarrow>
              if \<not> allowed v
              then (Continue, r\<lparr>skipped := skipped r + 1\<rparr>, mods\<lparr>dailyCounters := c1\<rparr>, w)
              else
                (case isDuplicate lim (nowOf w) (id' p) (source p) (postedProducts mods) of
                   (dup, t1) \<Rightarrow>
                     if dup
                     then (Continue, r\<lparr>skipped := skipped r + 1\<rparr>,
                           \<lparr>dailyCounters = c1, postedProducts = t1\<rparr>, w)
                     else
                       (case postDeal lim e (imageUrl p) w of
                          (Inl err, w1) \<Rightarrow>
                            (case onError err r of
                               (fl, r1) \<Rightarrow> (fl, r1, \<lparr>dailyCounters = c1, postedProducts = t1\<rparr>, w1))
                        | (Inr False, w1) \<Rightarrow>
                            (Continue,
                             r\<lparr>failed := failed r + 1,
                               errors := errors r @ [''Failed to post: '' @ jsString (id' p)]\<rparr>,
                             \<lparr>dailyCounters = c1, postedProducts = t1\<rparr>, w1)
                        | (Inr True, w1) \<Rightarrow>
                            (let r1 = bumpResult (source p) (r\<lparr>posted := posted r + 1\<rparr>);
                                 t2 = markPosted (nowOf w1) (id' p) (source p) t1;
                                 c2 = incrementCounters (nowOf w1) (source p) (categoryKey p) c1;
                                 mods2 = \<lparr>dailyCounters = c2, postedProducts = t2\<rparr>
                             in case name p of
                                  None \<Rightarrow>
                                    (case onError ''Cannot read properties of undefined (reading 'substring')'' r1 of
                                       (fl, r2) \<Rightarrow> (fl, r2, mods2, w1))
                                | Some n \<Rightarrow>
                                    (case postDelay lim w1 of
                                       (Inl err, w2) \<Rightarrow>
                                         (case onError err r1 of (fl, r2) \<Rightarrow> (fl, r2, mods2, w2))
                                     | (Inr _, w2) \<Rightarrow> (Continue, r1, mods2, w2)))))))"

fun postLoop :: "limits \<Rightarrow> env \<Rightarrow> int option \<Rightarrow> product list \<Rightarrow> results \<times> modules \<times> world
    \<Rightarrow> results \<times> modules \<times> world" where
  "postLoop lim e postsTarget [] st = st"
| "postLoop lim e postsTarget (p # ps) st =
     (case postOne lim e postsTarget p st of
        (Break, st1) \<Rightarrow> st1
      | (Continue, st1) \<Rightarrow> postLoop lim e postsTarget ps st1)"

definition postProducts :: "limits \<Rightarrow> env \<Rightarrow> product list \<Rightarrow> modules \<times> world
    \<Rightarrow> results \<times> modules \<times> world" where
  "postProducts lim e products st =
     (case st of (mods, w) \<Rightarrow>
       (case getPostsForSession e lim (nowOf w) (dailyCounters mods) of
          (postsTarget, c0) \<Rightarrow>
            postLoop lim e postsTarget products (noResults, mods\<lparr>dailyCounters := c0\<rparr>, w)))"

subsection \<open>The scenario of a daily cap of two\<close>





subsection \<open>Sample runs\<close>

text \<open>
  A process that has just started (the module-level initial values), five candidates
  from Flipkart, and a transport that answers the request made at step 2 (the second
  post attempt, after the first request and the delay that follows it) with the
  rate-limit error of the Bot API.
\<close>

definition freshModules :: modules where
  "freshModules = \<lparr>dailyCounters = resetCounters, postedProducts = []\<rparr>"

definition fiveCandidates :: "product list" where
  "fiveCandidates =
     [\<lparr>id' = Some ''F1'', name = Some ''Phone'', source = ''flipkart'',
       categoryKey = ''mobiles'', imageUrl = Some ''''\<rparr>,
      \<lparr>id' = Some ''F2'', name = Some ''Laptop'', source = ''flipkart'',
       categoryKey = ''laptops'', imageUrl = Some ''''\<rparr>,
      \<lparr>id' = Some ''F3'', name = Some ''Earbuds'', source = ''flipkart'',
       categoryKey = ''audio'', imageUrl = Some ''''\<rparr>,
      \<lparr>id' = Some ''F4'', name = Some ''Tablet'', source = ''flipkart'',
       categoryKey = ''mobiles'', imageUrl = Some ''''\<rparr>,
      \<lparr>id' = Some ''F5'', name = Some ''Monitor'', source = ''flipkart'',
       categoryKey = ''laptops'', imageUrl = Some ''''\<rparr>]"

definition rateLimitedSecond :: world where
  "rateLimitedSecond =
     \<lparr>step = 0, clock = (\<lambda>n. 1000 * int n),
      api = (\<lambda>n. if n = 2 then Throws ''Too Many Requests: retry after 30'' else Ok)\<rparr>"


definition candidateA1 :: product where
  "candidateA1 = \<lparr>id' = Some ''A1'', name = Some ''Phone'', source = ''flipkart'',
                  categoryKey = ''mobiles'', imageUrl = Some ''''\<rparr>"





text \<open>
  A run that starts one second before midnight (UTC) with three posts already counted
  for the day, and whose first request returns one second after midnight.
\<close>

definition threePosted :: modules where
  "threePosted =
     \<lparr>dailyCounters = \<lparr>flipkart = 3, amazon = 0, total = 3, byCategory = [''audio'' \<mapsto> 3],
                        date = Some 0, extra = Map.empty\<rparr>,
      postedProducts = []\<rparr>"

definition overMidnight :: world where
  "overMidnight =
     \<lparr>step = 0, clock = (\<lambda>n. if n = 0 then 86399000 else 86401000), api = (\<lambda>n. Ok)\<rparr>"

section \<open>Properties of the daily counters\<close>

lemma incrementCounters_keeps_sum:
  assumes "total c = sumPerSource c" and "src = ''flipkart'' \<or> src = ''amazon''"
  shows "total (incrementCounters now src k c) = sumPerSource (incrementCounters now src k c)"
  using assms
  by (auto simp: incrementCounters_def bumpSource_def bumpCategory_def initCounters_def
      sumPerSource_def Let_def)

lemma recordPosts_keeps_sum:
  "total c = sumPerSource c \<Longrightarrow>
   \<forall>(now, s, k) \<in> set calls. s = ''flipkart'' \<or> s = ''amazon'' \<Longrightarrow>
   total (recordPosts calls c) = sumPerSource (recordPosts calls c)"
proof (induction calls arbitrary: c)
  case Nil
  then show ?case by simp
next
  case (Cons x calls)
  obtain now s k where x: "x = (now, s, k)" by (cases x)
  with Cons.prems have sk: "s = ''flipkart'' \<or> s = ''amazon''" by simp
  show ?case using Cons.prems x
    by (simp add: Cons.IH incrementCounters_keeps_sum[OF Cons.prems(1) sk])
qed

lemma incrementCounters_total_same_day:
  assumes "date c = Some (todayOf now) \<or> total c = 0"
      and "src = ''flipkart'' \<or> src = ''amazon''"
  shows "total (incrementCounters now src k c) = total c + 1
         \<and> date (incrementCounters now src k c) = Some (todayOf now)"
  using assms
  by (auto simp: incrementCounters_def bumpSource_def bumpCategory_def initCounters_def Let_def)

lemma recordPosts_total_same_day:
  "date c = Some d \<or> total c = 0 \<Longrightarrow>
   \<forall>(now, s, k) \<in> set calls. (s = ''flipkart'' \<or> s = ''amazon'') \<and> todayOf now = d \<Longrightarrow>
   total (recordPosts calls c) = total c + length calls"
proof (induction calls arbitrary: c)
  case Nil
  then show ?case by simp
next
  case (Cons x calls)
  obtain now s k where x: "x = (now, s, k)" by (cases x)
  with Cons.prems have sk: "s = ''flipkart'' \<or> s = ''amazon''" and d: "todayOf now = d"
    by simp_all
  from Cons.prems(1) d have pre: "date c = Some (todayOf now) \<or> total c = 0" by simp
  note st = incrementCounters_total_same_day[OF pre sk, of k]
  have "total (recordPosts calls (incrementCounters now s k c))
          = total (incrementCounters now s k c) + length calls"
    using Cons.prems(2) st d by (intro Cons.IH) (auto simp: x)
  then show ?case using st by (simp add: x)
qed

text \<open>
  Claim C1. Start from freshly reset counters (\<open>resetCounters\<close>, or a forced
  \<open>initCounters\<close>) and make any sequence of \<^verbatim>\<open>incrementCounters\<close> calls whose sources are
  \<^verbatim>\<open>flipkart\<close> or \<^verbatim>\<open>amazon\<close> and whose clock readings all fall on one day. After every
  call (after the first \<open>n\<close> calls, for every \<open>n\<close>) the total equals the flipkart count
  plus the amazon count; within the day the total is also the number of calls made so
  far.
\<close>

theorem counters_total_is_sum_of_sources:
  assumes "c0 = resetCounters \<or> c0 = initCounters True now0 c"
      and "\<forall>(now, src, key) \<in> set calls.
             (src = ''flipkart'' \<or> src = ''amazon'') \<and> todayOf now = day"
      and "n \<le> length calls"
  shows "total (recordPosts (take n calls) c0)
           = flipkart (recordPosts (take n calls) c0) + amazon (recordPosts (take n calls) c0)
         \<and> total (recordPosts (take n calls) c0) = n"
proof -
  have sub: "\<forall>(now, s, k) \<in> set (take n calls).
               (s = ''flipkart'' \<or> s = ''amazon'') \<and> todayOf now = day"
    using assms(2) by (meson in_set_takeD)
  then have sub': "\<forall>(now, s, k) \<in> set (take n calls). s = ''flipkart'' \<or> s = ''amazon''"
    by fastforce
  have z: "total c0 = sumPerSource c0" and z0: "total c0 = 0"
    using assms(1) by (auto simp: resetCounters_def sumPerSource_def initCounters_def)
  have "total (recordPosts (take n calls) c0) = sumPerSource (recordPosts (take n calls) c0)"
    by (rule recordPosts_keeps_sum[OF z sub'])
  moreover have "total (recordPosts (take n calls) c0) = total c0 + length (take n calls)"
    by (rule recordPosts_total_same_day[OF _ sub]) (simp add: z0)
  ultimately show ?thesis
    using assms(3) z0 by (simp add: sumPerSource_def)
qed

theorem counters_total_is_sum_of_sources_witness:
  "total (recordPosts (take 2 [(1000, ''flipkart'', ''mobiles''), (2000, ''amazon'', ''mobiles''),
        (3000, ''flipkart'', ''laptops'')]) resetCounters)
     = flipkart (recordPosts (take 2 [(1000, ''flipkart'', ''mobiles''), (2000, ''amazon'', ''mobiles''),
        (3000, ''flipkart'', ''laptops'')]) resetCounters)
       + amazon (recordPosts (take 2 [(1000, ''flipkart'', ''mobiles''), (2000, ''amazon'', ''mobiles''),
        (3000, ''flipkart'', ''laptops'')]) resetCounters)
   \<and> total (recordPosts (take 2 [(1000, ''flipkart'', ''mobiles''), (2000, ''amazon'', ''mobiles''),
        (3000, ''flipkart'', ''laptops'')]) resetCounters) = 2"
  using counters_total_is_sum_of_sources[of resetCounters 0 resetCounters
      "[(1000, ''flipkart'', ''mobiles''), (2000, ''amazon'', ''mobiles''),
        (3000, ''flipkart'', ''laptops'')]" 0 2]
  by (simp add: todayOf_def)



lemma propGe_Num [simp]: "propGe (Num a) (Num b) = (b \<le> a)"
  by (simp add: propGe_def toNumber_def)

lemma propGe_not_number [simp]:
  "propGe (Text t) (Num b) = False" "propGe DayText (Num b) = False"
  "propGe Undefined (Num b) = False"
  by (simp_all add: propGe_def toNumber_def)

lemma strGe_refl: "strGe t t"
  by (induction t) simp_all

lemma propGe_same_text [simp]: "propGe (Text t) (Text t)"
  by (simp add: propGe_def strGe_refl)








section \<open>Properties of the posted-products tracker\<close>

lemma toLowerChar_idem: "toLowerChar (toLowerChar ch) = toLowerChar ch"
  by (simp add: toLowerChar_def)

lemma toLowerCase_idem: "toLowerCase (toLowerCase s) = toLowerCase s"
  by (simp add: toLowerCase_def toLowerChar_idem)

lemma toLowerCase_Nil_iff: "toLowerCase s = [] \<longleftrightarrow> s = []"
  by (simp add: toLowerCase_def)

lemma uniqueKey_lower: "toLowerCase (uniqueKey pid src) = uniqueKey pid src"
  by (simp add: uniqueKey_def toLowerCase_idem)

lemma uniqueKey_nonempty: "\<not> falsy pid \<Longrightarrow> uniqueKey pid src \<noteq> []"
  by (auto simp: uniqueKey_def falsy_def jsString_def toLowerCase_Nil_iff split: option.splits)

lemma map_of_mapSet: "map_of (mapSet k v m) = (map_of m)(k \<mapsto> v)"
  by (induction m) (auto simp: fun_eq_iff)

lemma map_of_mapDelete: "map_of (mapDelete k m) = (map_of m)(k := None)"
  by (induction m) (auto simp: mapDelete_def fun_eq_iff)

lemma TTL_MS_pos: "0 < TTL_MS lim"
  by (simp add: TTL_MS_def TTL_DAYS_def orDefault_def split: option.splits)

lemma isDuplicate_iff:
  assumes "\<not> falsy pid"
  shows "fst (isDuplicate lim now pid src m)
           = (case map_of m (uniqueKey pid src) of None \<Rightarrow> False | Some ts \<Rightarrow> now - ts < TTL_MS lim)"
  using uniqueKey_nonempty[OF assms, of src]
  by (simp add: isDuplicate_def isPosted_def uniqueKey_lower Let_def split: option.splits)

text \<open>
  Claim C6, as amended. For every product identifier that is present and not empty, and
  every non-empty source: right after \<open>markPosted\<close>, at the same clock reading,
  \<open>isDuplicate\<close> answers true; and once the clock is at least the TTL past the reading of
  \<open>markPosted\<close>, \<open>isDuplicate\<close> answers false and removes the expired entry.
\<close>

theorem markPosted_then_isDuplicate:
  assumes "\<not> falsy pid" and "src \<noteq> []"
  shows "fst (isDuplicate lim now pid src (markPosted now pid src m))
         \<and> (TTL_MS lim \<le> later - now \<longrightarrow>
              \<not> fst (isDuplicate lim later pid src (markPosted now pid src m))
              \<and> map_of (snd (isDuplicate lim later pid src (markPosted now pid src m)))
                   (uniqueKey pid src) = None)"
  using assms(1) uniqueKey_nonempty[OF assms(1), of src] TTL_MS_pos[of lim]
  by (simp add: isDuplicate_def isPosted_def markPosted_def uniqueKey_lower map_of_mapSet
      map_of_mapDelete Let_def)

theorem markPosted_then_isDuplicate_witness:
  "fst (isDuplicate readmeLimits 1000 (Some ''B0ABC'') ''Amazon''
          (markPosted 1000 (Some ''B0ABC'') ''Amazon'' []))
   \<and> \<not> fst (isDuplicate readmeLimits 604801000 (Some ''B0ABC'') ''Amazon''
          (markPosted 1000 (Some ''B0ABC'') ''Amazon'' []))"
  using markPosted_then_isDuplicate[of "Some ''B0ABC''" "''Amazon''" readmeLimits 1000 "[]" 604801000]
  by (simp add: falsy_def TTL_MS_def TTL_DAYS_def orDefault_def readmeLimits_def)

text \<open>
  The claim as first stated, for every product identifier, fails on the empty
  identifier: \<open>markPosted\<close> returns at once (\<^verbatim>\<open>if (!productId) return\<close>), so nothing is
  tracked and \<open>isDuplicate\<close> answers false.
\<close>

theorem markPosted_empty_id_counterexample:
  "''flipkart'' \<noteq> []
   \<and> \<not> fst (isDuplicate readmeLimits 1000 (Some []) ''flipkart''
            (markPosted 1000 (Some []) ''flipkart'' []))"
  by (simp add: isDuplicate_def isPosted_def markPosted_def falsy_def uniqueKey_def jsString_def
      toLowerCase_def toLowerChar_def Let_def)

lemma isPosted_after_isPosted:
  "fst (isPosted lim now k (snd (isPosted lim now k0 m))) = fst (isPosted lim now k m)"
  by (auto simp: isPosted_def Let_def map_of_mapDelete split: option.splits)

lemma isDuplicate_after_isDuplicate:
  "fst (isDuplicate lim now pid src (snd (isDuplicate lim now pid0 src0 m)))
     = fst (isDuplicate lim now pid src m)"
  by (simp add: isDuplicate_def isPosted_after_isPosted)

lemma filterDuplicates_fst:
  "fst (filterDuplicates lim now ps m)
     = filter (\<lambda>p. \<not> falsy (id' p) \<and> \<not> fst (isDuplicate lim now (id' p) (source p) m)) ps"
proof (induction ps arbitrary: m)
  case Nil
  then show ?case by simp
next
  case (Cons p ps)
  show ?case
  proof (cases "falsy (id' p)")
    case True
    then show ?thesis by (simp add: Cons.IH)
  next
    case False
    obtain dup m1 where d: "isDuplicate lim now (id' p) (source p) m = (dup, m1)"
      by (cases "isDuplicate lim now (id' p) (source p) m")
    obtain kept m2 where k: "filterDuplicates lim now ps m1 = (kept, m2)"
      by (cases "filterDuplicates lim now ps m1")
    have m1: "m1 = snd (isDuplicate lim now (id' p) (source p) m)" using d by simp
    have "kept = filter (\<lambda>q. \<not> falsy (id' q) \<and> \<not> fst (isDuplicate lim now (id' q) (source q) m1)) ps"
      using Cons.IH[of m1] k by simp
    also have "\<dots> = filter (\<lambda>q. \<not> falsy (id' q) \<and> \<not> fst (isDuplicate lim now (id' q) (source q) m)) ps"
      by (simp add: m1 isDuplicate_after_isDuplicate)
    finally show ?thesis using False d k by simp
  qed
qed

text \<open>
  Claim C8. \<open>filterDuplicates\<close> returns, in their original order, exactly the products
  whose identifier is present and for which \<open>isDuplicate\<close> (asked of the tracker as it is
  when \<open>filterDuplicates\<close> is called) answers false; a product without identifier is
  dropped. In particular, of five products with identifiers, where the second and the
  fourth were marked posted with their sources within the TTL and the keys of the other
  three are different from those two, the first, third and fifth are returned in this
  order.
\<close>

theorem filterDuplicates_keeps_exactly_new_items:
  "fst (filterDuplicates lim now ps m)
     = filter (\<lambda>p. \<not> falsy (id' p) \<and> \<not> fst (isDuplicate lim now (id' p) (source p) m)) ps
   \<and> (\<not> falsy (id' p1) \<and> \<not> falsy (id' p2) \<and> \<not> falsy (id' p3) \<and> \<not> falsy (id' p4)
        \<and> \<not> falsy (id' p5)
        \<and> uniqueKey (id' p1) (source p1) \<notin> {uniqueKey (id' p2) (source p2), uniqueKey (id' p4) (source p4)}
        \<and> uniqueKey (id' p3) (source p3) \<notin> {uniqueKey (id' p2) (source p2), uniqueKey (id' p4) (source p4)}
        \<and> uniqueKey (id' p5) (source p5) \<notin> {uniqueKey (id' p2) (source p2), uniqueKey (id' p4) (source p4)}
        \<and> now - t < TTL_MS lim
      \<longrightarrow> fst (filterDuplicates lim now [p1, p2, p3, p4, p5]
                 (markPosted t (id' p4) (source p4) (markPosted t (id' p2) (source p2) [])))
            = [p1, p3, p5])"
proof (intro conjI impI)
  show "fst (filterDuplicates lim now ps m)
     = filter (\<lambda>p. \<not> falsy (id' p) \<and> \<not> fst (isDuplicate lim now (id' p) (source p) m)) ps"
    by (rule filterDuplicates_fst)
next
  assume h: "\<not> falsy (id' p1) \<and> \<not> falsy (id' p2) \<and> \<not> falsy (id' p3) \<and> \<not> falsy (id' p4)
        \<and> \<not> falsy (id' p5)
        \<and> uniqueKey (id' p1) (source p1) \<notin> {uniqueKey (id' p2) (source p2), uniqueKey (id' p4) (source p4)}
        \<and> uniqueKey (id' p3) (source p3) \<notin> {uniqueKey (id' p2) (source p2), uniqueKey (id' p4) (source p4)}
        \<and> uniqueKey (id' p5) (source p5) \<notin> {uniqueKey (id' p2) (source p2), uniqueKey (id' p4) (source p4)}
        \<and> now - t < TTL_MS lim"
  then show "fst (filterDuplicates lim now [p1, p2, p3, p4, p5]
                 (markPosted t (id' p4) (source p4) (markPosted t (id' p2) (source p2) [])))
            = [p1, p3, p5]"
    unfolding filterDuplicates_fst
    by (simp add: isDuplicate_iff markPosted_def map_of_mapSet)
qed

theorem filterDuplicates_keeps_exactly_new_items_witness:
  "fst (filterDuplicates readmeLimits 5000
     [\<lparr>id' = Some ''A1'', name = Some ''one'', source = ''flipkart'', categoryKey = ''mobiles'', imageUrl = None\<rparr>,
      \<lparr>id' = Some ''A2'', name = Some ''two'', source = ''flipkart'', categoryKey = ''mobiles'', imageUrl = None\<rparr>,
      \<lparr>id' = Some ''A3'', name = Some ''three'', source = ''amazon'', categoryKey = ''laptops'', imageUrl = None\<rparr>,
      \<lparr>id' = Some ''A4'', name = Some ''four'', source = ''amazon'', categoryKey = ''laptops'', imageUrl = None\<rparr>,
      \<lparr>id' = Some ''A5'', name = Some ''five'', source = ''flipkart'', categoryKey = ''audio'', imageUrl = None\<rparr>]
     (markPosted 1000 (Some ''A4'') ''amazon'' (markPosted 1000 (Some ''A2'') ''flipkart'' [])))
   = [\<lparr>id' = Some ''A1'', name = Some ''one'', source = ''flipkart'', categoryKey = ''mobiles'', imageUrl = None\<rparr>,
      \<lparr>id' = Some ''A3'', name = Some ''three'', source = ''amazon'', categoryKey = ''laptops'', imageUrl = None\<rparr>,
      \<lparr>id' = Some ''A5'', name = Some ''five'', source = ''flipkart'', categoryKey = ''audio'', imageUrl = None\<rparr>]"
  using filterDuplicates_keeps_exactly_new_items[of readmeLimits 5000 "[]" "[]"
      "\<lparr>id' = Some ''A1'', name = Some ''one'', source = ''flipkart'', categoryKey = ''mobiles'', imageUrl = None\<rparr>"
      "\<lparr>id' = Some ''A2'', name = Some ''two'', source = ''flipkart'', categoryKey = ''mobiles'', imageUrl = None\<rparr>"
      "\<lparr>id' = Some ''A3'', name = Some ''three'', source = ''amazon'', categoryKey = ''laptops'', imageUrl = None\<rparr>"
      "\<lparr>id' = Some ''A4'', name = Some ''four'', source = ''amazon'', categoryKey = ''laptops'', imageUrl = None\<rparr>"
      "\<lparr>id' = Some ''A5'', name = Some ''five'', source = ''flipkart'', categoryKey = ''audio'', imageUrl = None\<rparr>"
      1000]
  by (simp add: falsy_def uniqueKey_def jsString_def toLowerCase_def toLowerChar_def
      TTL_MS_def TTL_DAYS_def orDefault_def readmeLimits_def)

lemma cleanupExpired_live:
  "cleanupExpired lim now m = filter (\<lambda>(k, t). now - t < TTL_MS lim) m"
  by (simp add: cleanupExpired_def not_le)

lemma sorted_tail_dominates:
  assumes "e \<in> set xs" "e \<notin> set (drop n (sort_key snd xs))" "e' \<in> set (drop n (sort_key snd xs))"
  shows "snd e \<le> (snd e' :: int)"
proof -
  let ?s = "sort_key snd xs"
  have "e \<in> set ?s" using assms(1) by simp
  then have "e \<in> set (take n ?s) \<union> set (drop n ?s)"
    by (metis append_take_drop_id set_append)
  with assms(2) have e: "e \<in> set (take n ?s)" by blast
  have "sorted (map snd ?s)" by simp
  then have "sorted (map snd (take n ?s) @ map snd (drop n ?s))"
    by (metis append_take_drop_id map_append)
  then have "\<forall>x \<in> set (take n ?s). \<forall>y \<in> set (drop n ?s). snd x \<le> snd y"
    by (simp add: sorted_append)
  with e assms(3) show ?thesis by blast
qed

lemma objectOrder_alt:
  "objectOrder xs = sort_key (\<lambda>x. digitsValue (fst x)) (filter (\<lambda>x. isArrayIndex (fst x)) xs)
                     @ filter (\<lambda>x. \<not> isArrayIndex (fst x)) xs"
  by (simp add: objectOrder_def case_prod_unfold)

lemma set_objectOrder: "set (objectOrder xs) = set xs"
  by (auto simp: objectOrder_alt)

lemma length_objectOrder: "length (objectOrder xs) = length xs"
  by (simp add: objectOrder_alt sum_length_filter_compl)

lemma distinct_objectOrder:
  assumes "distinct (map fst xs)"
  shows "distinct (map fst (objectOrder xs))"
proof -
  let ?ix = "filter (\<lambda>x. isArrayIndex (fst x)) xs"
  let ?ot = "filter (\<lambda>x. \<not> isArrayIndex (fst x)) xs"
  have d1: "distinct (map fst ?ix)" and d2: "distinct (map fst ?ot)"
    using assms by (simp_all add: distinct_map_filter)
  have "distinct (map fst (sort_key (\<lambda>x. digitsValue (fst x)) ?ix))"
    using d1 by (simp add: distinct_map)
  moreover have "fst ` set ?ix \<inter> fst ` set ?ot = {}" by auto
  ultimately show ?thesis using d2 by (simp add: objectOrder_alt)
qed

lemma objectOrder_idem: "objectOrder (objectOrder xs) = objectOrder xs"
proof -
  let ?f = "\<lambda>x. digitsValue (fst x)"
  let ?ix = "filter (\<lambda>x. isArrayIndex (fst x)) xs"
  let ?ot = "filter (\<lambda>x. \<not> isArrayIndex (fst x)) xs"
  have a: "filter (\<lambda>x. isArrayIndex (fst x)) (sort_key ?f ?ix) = sort_key ?f ?ix"
    by (simp only: filter_sort filter_filter conj_absorb)
  have b: "filter (\<lambda>x. isArrayIndex (fst x)) ?ot = []"
    by (simp add: filter_empty_conv)
  have c: "filter (\<lambda>x. \<not> isArrayIndex (fst x)) (sort_key ?f ?ix) = []"
    by (simp add: filter_empty_conv)
  have d: "filter (\<lambda>x. \<not> isArrayIndex (fst x)) ?ot = ?ot"
    by (simp only: filter_filter conj_absorb)
  have e: "sort_key ?f (sort_key ?f ?ix) = sort_key ?f ?ix"
    by (simp only: sort_key_id_if_sorted sorted_sort_key)
  have "objectOrder (sort_key ?f ?ix @ ?ot) = sort_key ?f ?ix @ ?ot"
    unfolding objectOrder_alt[of "sort_key ?f ?ix @ ?ot"] filter_append a b c d
    by (simp only: e append_Nil append_Nil2)
  then show ?thesis by (simp only: objectOrder_alt[of xs])
qed

lemma saveToFile_ok:
  assumes "\<not> mkdirFails f" "writeResult f = Written"
  shows "saveToFile lim now f (m, d)
           = (keptBySave lim now m,
              \<lparr>dirExists = True, postedFile = Some (Object (objectOrder (keptBySave lim now m)))\<rparr>)"
  using assms
  by (cases d) (auto simp: saveToFile_def ensureDataDir_def writeFile_def cleanupExpired_live
      keptBySave_def Let_def)

lemma keptBySave_subset:
  "set (keptBySave lim now m) \<subseteq> set (filter (\<lambda>(k, t). now - t < TTL_MS lim) m)"
proof (cases "MAX_TRACKED lim < length (filter (\<lambda>(k, t). now - t < TTL_MS lim) m)")
  case True
  let ?live = "filter (\<lambda>(k, t). now - t < TTL_MS lim) m"
  have "set (drop (length ?live - MAX_TRACKED lim) (sort_key snd ?live)) \<subseteq> set ?live"
    by (metis set_drop_subset set_sort)
  with True show ?thesis by (simp add: keptBySave_def Let_def)
next
  case False
  then show ?thesis by (simp add: keptBySave_def Let_def)
qed

lemma loadFromFile_ok:
  assumes "\<not> readFails g"
  shows "loadFromFile lim now g
           (m0, \<lparr>dirExists = True, postedFile = Some (Object (objectOrder (keptBySave lim now m)))\<rparr>)
         = (objectOrder (keptBySave lim now m),
            \<lparr>dirExists = True, postedFile = Some (Object (objectOrder (keptBySave lim now m)))\<rparr>)"
proof -
  have "\<forall>x \<in> set (objectOrder (keptBySave lim now m)). (\<lambda>(k, t). now - t < TTL_MS lim) x"
    using keptBySave_subset[of lim now m] by (auto simp: set_objectOrder)
  then have "filter (\<lambda>(k, t). now - t < TTL_MS lim) (objectOrder (keptBySave lim now m))
               = objectOrder (keptBySave lim now m)"
    by (simp only: filter_True)
  then show ?thesis
    using assms by (simp add: loadFromFile_def ensureDataDir_def objectOrder_idem)
qed

text \<open>
  Claim C7. Let the tracker hold distinct keys, let the directory creation and the write
  of \<open>saveToFile\<close> succeed and the read of the following \<open>loadFromFile\<close> succeed, both at
  the same clock reading; the load may start from an empty tracker (a fresh process) or
  from any other. Then the reloaded tracker is the same mapping as the one \<open>saveToFile\<close>
  left in memory: the same entries, each key once (the entries come back in the key order
  of a JavaScript object, array indices first). If at most \<open>MAX_TRACKED\<close> entries of the
  tracker before the save are younger than the TTL, the reloaded tracker holds exactly
  those. If more are, it holds \<open>MAX_TRACKED\<close> of them, and every entry left out is no
  newer than every entry kept. In both cases its size is at most \<open>MAX_TRACKED\<close>.
\<close>

theorem save_then_fresh_load:
  assumes "distinct (map fst m)" and "\<not> mkdirFails f" and "writeResult f = Written"
      and "\<not> readFails g"
  shows "(let live = filter (\<lambda>(k, t). now - t < TTL_MS lim) m;
              saved = fst (saveToFile lim now f (m, d));
              reloaded = fst (loadFromFile lim now g (m0, snd (saveToFile lim now f (m, d))))
          in (length live \<le> MAX_TRACKED lim \<longrightarrow> set reloaded = set live)
           \<and> (MAX_TRACKED lim < length live \<longrightarrow>
                 length reloaded = MAX_TRACKED lim
                 \<and> set reloaded \<subseteq> set live
                 \<and> (\<forall>e \<in> set live. e \<notin> set reloaded \<longrightarrow> (\<forall>e' \<in> set reloaded. snd e \<le> snd e')))
           \<and> length reloaded \<le> MAX_TRACKED lim
           \<and> distinct (map fst reloaded)
           \<and> set reloaded = set saved \<and> map_of reloaded = map_of saved
           \<and> reloaded = objectOrder saved)"
proof -
  let ?live = "filter (\<lambda>(k, t). now - t < TTL_MS lim) m"
  let ?kept = "keptBySave lim now m"
  let ?re = "objectOrder ?kept"
  have re: "fst (loadFromFile lim now g (m0, snd (saveToFile lim now f (m, d)))) = ?re"
    by (simp add: saveToFile_ok[OF assms(2,3)] loadFromFile_ok[OF assms(4)])
  have sv: "fst (saveToFile lim now f (m, d)) = ?kept"
    by (simp add: saveToFile_ok[OF assms(2,3)])
  have small: "length ?live \<le> MAX_TRACKED lim \<Longrightarrow> ?kept = ?live"
    by (simp add: keptBySave_def Let_def)
  have big: "MAX_TRACKED lim < length ?live \<Longrightarrow>
               ?kept = drop (length ?live - MAX_TRACKED lim) (sort_key snd ?live)"
    by (simp add: keptBySave_def Let_def)
  have len_big: "MAX_TRACKED lim < length ?live \<Longrightarrow> length ?kept = MAX_TRACKED lim"
    by (simp add: big)
  have dom: "MAX_TRACKED lim < length ?live \<Longrightarrow>
               \<forall>e \<in> set ?live. e \<notin> set ?kept \<longrightarrow> (\<forall>e' \<in> set ?kept. snd e \<le> snd e')"
    using sorted_tail_dominates[of _ ?live "length ?live - MAX_TRACKED lim"] by (simp add: big)
  have len: "length ?kept \<le> MAX_TRACKED lim"
    using small len_big by (cases "MAX_TRACKED lim < length ?live") auto
  have dl: "distinct (map fst ?live)" using assms(1) by (simp add: distinct_map_filter)
  have "distinct (map fst (sort_key snd ?live))"
    using dl by (metis distinct_map distinct_sort set_sort)
  then have "distinct (map fst (drop n (sort_key snd ?live)))" for n
    by (metis distinct_drop drop_map)
  then have dk: "distinct (map fst ?kept)"
    using dl by (cases "MAX_TRACKED lim < length ?live") (simp_all add: big small)
  have dr: "distinct (map fst ?re)" by (rule distinct_objectOrder[OF dk])
  have mp: "map_of ?re = map_of ?kept"
    using map_of_inject_set[OF dr dk] by (simp only: set_objectOrder)
  show ?thesis
    unfolding Let_def re sv
  proof (intro conjI impI)
    show "length ?live \<le> MAX_TRACKED lim \<Longrightarrow> set ?re = set ?live"
      by (simp add: set_objectOrder small)
    show "MAX_TRACKED lim < length ?live \<Longrightarrow> length ?re = MAX_TRACKED lim"
      by (simp add: length_objectOrder len_big)
    show "set ?re \<subseteq> set ?live"
      using keptBySave_subset[of lim now m] by (simp add: set_objectOrder)
    show "MAX_TRACKED lim < length ?live \<Longrightarrow>
            \<forall>e \<in> set ?live. e \<notin> set ?re \<longrightarrow> (\<forall>e' \<in> set ?re. snd e \<le> snd e')"
      using dom by (simp add: set_objectOrder)
    show "length ?re \<le> MAX_TRACKED lim" by (simp add: length_objectOrder len)
    show "distinct (map fst ?re)" by (rule dr)
    show "set ?re = set ?kept" by (rule set_objectOrder)
    show "map_of ?re = map_of ?kept" by (rule mp)
    show "?re = objectOrder ?kept" by (rule refl)
  qed
qed

theorem save_then_fresh_load_witness:
  "fst (saveToFile (readmeLimits\<lparr>maxTrackedProducts := Some 2\<rparr>) 700000000 noFaults
         ([(''flipkart_a'', 1000), (''7'', 600000000), (''flipkart_b'', 500000000),
           (''12'', 400000000)],
          \<lparr>dirExists = False, postedFile = None\<rparr>))
     = [(''flipkart_b'', 500000000), (''7'', 600000000)]
   \<and> fst (loadFromFile (readmeLimits\<lparr>maxTrackedProducts := Some 2\<rparr>) 700000000 noFaults
         ([], snd (saveToFile (readmeLimits\<lparr>maxTrackedProducts := Some 2\<rparr>) 700000000 noFaults
                ([(''flipkart_a'', 1000), (''7'', 600000000), (''flipkart_b'', 500000000),
                  (''12'', 400000000)],
                 \<lparr>dirExists = False, postedFile = None\<rparr>))))
     = [(''7'', 600000000), (''flipkart_b'', 500000000)]"
proof -
  let ?lim = "readmeLimits\<lparr>maxTrackedProducts := Some 2\<rparr>"
  let ?m = "[(''flipkart_a'', 1000), (''7'', 600000000), (''flipkart_b'', 500000000),
             (''12'', 400000000 :: int)]"
  let ?d = "\<lparr>dirExists = False, postedFile = None\<rparr>"
  have h1: "distinct (map fst ?m)" by simp
  have h2: "\<not> mkdirFails noFaults" by (simp add: noFaults_def)
  have h3: "writeResult noFaults = Written" by (simp add: noFaults_def)
  have h4: "\<not> readFails noFaults" by (simp add: noFaults_def)
  have saved: "fst (saveToFile ?lim 700000000 noFaults (?m, ?d))
                 = [(''flipkart_b'', 500000000), (''7'', 600000000)]"
    by (simp add: noFaults_def saveToFile_def ensureDataDir_def writeFile_def cleanupExpired_def
        MAX_TRACKED_def TTL_MS_def TTL_DAYS_def orDefault_def readmeLimits_def Let_def)
  have ix: "isArrayIndex ''7''" "\<not> isArrayIndex ''flipkart_b''"
    by (simp_all add: isArrayIndex_def isDigitChar_def digitsValue_def)
  have ord: "objectOrder [(''flipkart_b'', 500000000), (''7'', 600000000)]
               = [(''7'', 600000000), (''flipkart_b'', 500000000)]"
    by (simp add: objectOrder_def ix)
  have "fst (loadFromFile ?lim 700000000 noFaults ([], snd (saveToFile ?lim 700000000 noFaults (?m, ?d))))
          = objectOrder (fst (saveToFile ?lim 700000000 noFaults (?m, ?d)))"
    using save_then_fresh_load[OF h1 h2 h3 h4, where now = 700000000 and lim = ?lim
        and ?m0.0 = "[]" and d = ?d]
    unfolding Let_def by (elim conjE)
  then show ?thesis by (simp only: saved ord simp_thms)
qed

section \<open>Properties of the weighted choice\<close>

declare selectLoop.simps[simp del]

lemma randomIndex_less: "0 < len \<Longrightarrow> randomIndex r len < len"
proof -
  assume "0 < len"
  then have "(r mod 2 ^ 53) * len < 2 ^ 53 * len" by simp
  then show ?thesis
    unfolding randomIndex_def by (simp add: less_mult_imp_div_less mult.commute)
qed

lemma selectLoop_inv:
  "distinct selected \<Longrightarrow> set selected \<inter> set weighted = {} \<Longrightarrow> length selected \<le> count \<Longrightarrow>
   distinct (selectLoop count rnd i selected weighted)
   \<and> set (selectLoop count rnd i selected weighted) \<subseteq> set selected \<union> set weighted
   \<and> length (selectLoop count rnd i selected weighted)
       = min count (length selected + card (set weighted))"
proof (induction count rnd i selected weighted rule: selectLoop.induct)
  case (1 count rnd i selected weighted)
  show ?case
  proof (cases "length selected < count \<and> 0 < length weighted")
    case False
    then have r: "selectLoop count rnd i selected weighted = selected"
      by (subst selectLoop.simps) auto
    from False "1.prems"(3) have "length selected = count \<or> weighted = []" by auto
    then show ?thesis using "1.prems" r by auto
  next
    case True
    define index where "index = randomIndex (rnd i) (length weighted)"
    define chosen where "chosen = weighted ! index"
    define selected1 where "selected1 = (if chosen \<in> set selected then selected else selected @ [chosen])"
    define weighted1 where "weighted1 = filter (\<lambda>w. w \<noteq> chosen) weighted"
    have r: "selectLoop count rnd i selected weighted = selectLoop count rnd (Suc i) selected1 weighted1"
      using True by (subst selectLoop.simps) (simp add: Let_def index_def chosen_def selected1_def weighted1_def)
    have "index < length weighted" using True by (simp add: index_def randomIndex_less)
    then have cw: "chosen \<in> set weighted" by (simp add: chosen_def)
    with "1.prems"(2) have cs: "chosen \<notin> set selected" by auto
    then have s1: "selected1 = selected @ [chosen]" by (simp add: selected1_def)
    have sw1: "set weighted1 = set weighted - {chosen}" by (auto simp: weighted1_def)
    have d1: "distinct selected1" using "1.prems"(1) cs by (simp add: s1)
    have i1: "set selected1 \<inter> set weighted1 = {}" using "1.prems"(2) by (auto simp: s1 sw1)
    have l1: "length selected1 \<le> count" using True by (simp add: s1)
    have card1: "card (set weighted) = Suc (card (set weighted1))"
      using cw card_Suc_Diff1[of "set weighted" chosen] by (simp add: sw1)
    note IH = "1.IH"[OF True index_def chosen_def selected1_def weighted1_def d1 i1 l1]
    have sub: "set selected1 \<union> set weighted1 \<subseteq> set selected \<union> set weighted"
      using cw by (auto simp: s1 sw1)
    have len: "length selected1 + card (set weighted1) = length selected + card (set weighted)"
      by (simp add: s1 card1)
    from IH have "distinct (selectLoop count rnd (Suc i) selected1 weighted1)"
      and "set (selectLoop count rnd (Suc i) selected1 weighted1) \<subseteq> set selected1 \<union> set weighted1"
      and "length (selectLoop count rnd (Suc i) selected1 weighted1)
             = min count (length selected1 + card (set weighted1))"
      by blast+
    then show ?thesis
      unfolding r len using sub by blast
  qed
qed

lemma set_buildWeighted: "set (buildWeighted cats) = fst ` set cats"
proof -
  have "set (replicate (orDefault w 1) key) = {key}" for w and key :: string
    by (simp add: orDefault_def split: option.splits)
  then have "set (buildWeighted cats) = (\<Union>(key, info) \<in> set cats. {key})"
    by (simp add: buildWeighted_def case_prod_unfold)
  also have "\<dots> = fst ` set cats" by force
  finally show ?thesis .
qed

text \<open>
  Claim C9. For every count \<open>k\<close>, every list of categories with weights and every
  sequence of random samples, \<open>selectCategories\<close> returns pairwise distinct keys, all of
  them configured keys, at most \<open>k\<close> of them; it stops only when \<open>k\<close> keys are chosen or
  the weighted list is used up, so the number of keys is the smaller of \<open>k\<close> and the
  number of configured keys; with fewer categories than \<open>k\<close> it returns fewer than \<open>k\<close>
  keys.
\<close>

theorem selectCategories_distinct_bounded:
  "distinct (selectCategories cats rnd k)
   \<and> length (selectCategories cats rnd k) \<le> k
   \<and> set (selectCategories cats rnd k) \<subseteq> fst ` set cats
   \<and> length (selectCategories cats rnd k) = min k (card (fst ` set cats))
   \<and> (length cats < k \<longrightarrow> length (selectCategories cats rnd k) < k)"
proof -
  have inv: "distinct (selectCategories cats rnd k)
     \<and> set (selectCategories cats rnd k) \<subseteq> set [] \<union> set (buildWeighted cats)
     \<and> length (selectCategories cats rnd k) = min k (length ([]::string list) + card (set (buildWeighted cats)))"
    unfolding selectCategories_def by (rule selectLoop_inv) simp_all
  have "card (fst ` set cats) \<le> length cats"
    by (metis card_image_le card_length le_trans List.finite_set)
  then show ?thesis using inv by (auto simp: set_buildWeighted)
qed

theorem selectCategories_distinct_bounded_witness:
  "length sampleCategories < 5
   \<and> length (selectCategories sampleCategories (\<lambda>i. 2 ^ 52) 5) < 5
   \<and> selectCategories sampleCategories (\<lambda>i. 2 ^ 52) 5 = [''laptops'', ''mobiles'', ''audio'']"
proof -
  have bw: "buildWeighted sampleCategories
              = [''mobiles'', ''mobiles'', ''mobiles'', ''laptops'', ''laptops'', ''audio'']"
    by (simp add: sampleCategories_def buildWeighted_def orDefault_def eval_nat_numeral)
  have run: "selectCategories sampleCategories (\<lambda>i. 2 ^ 52) 5 = [''laptops'', ''mobiles'', ''audio'']"
    by (simp add: selectCategories_def bw selectLoop.simps randomIndex_def Let_def)
  have len: "length sampleCategories < 5" by (simp add: sampleCategories_def)
  from selectCategories_distinct_bounded[of sampleCategories "\<lambda>i. 2 ^ 52" 5] len
  have "length (selectCategories sampleCategories (\<lambda>i. 2 ^ 52) 5) < 5" by blast
  with len run show ?thesis by blast
qed

section \<open>Properties of the transport and of the posting loop\<close>

lemma api_await [simp]: "api (await w) = api w"
  by (simp add: await_def)

lemma sendMessage_world: "api (snd (sendMessage e w)) = api w"
  by (simp add: sendMessage_def request_def split: sum.splits reply.splits)

lemma retryLoop_all_fail:
  "\<forall>n. api w n \<noteq> Ok \<Longrightarrow> fst (retryLoop e k w) = False"
proof (induction k arbitrary: w)
  case 0
  then show ?case by simp
next
  case (Suc k)
  obtain r w1 where s: "sendMessage e w = (r, w1)" by (cases "sendMessage e w")
  have a1: "api w1 = api w" using sendMessage_world[of e w] s by simp
  have notok: "\<forall>n. api w1 n \<noteq> Ok" "\<forall>n. api (await w1) n \<noteq> Ok" using Suc.prems a1 by simp_all
  have "r \<noteq> Inr ()"
    using s Suc.prems by (auto simp: sendMessage_def request_def split: sum.splits reply.splits)
  then obtain msg where r: "r = Inl msg" by (cases r) auto
  show ?case
    using Suc.IH[OF notok(1)] Suc.IH[OF notok(2)] by (simp add: s r)
qed

lemma retryLoop_rate_limited:
  "api w (step w) = Throws message \<Longrightarrow> str_includes message ''Too Many Requests'' \<Longrightarrow>
   fst (retryLoop e k w) = False"
proof (cases k)
  case 0
  then show ?thesis by simp
next
  case (Suc k')
  assume a: "api w (step w) = Throws message" "str_includes message ''Too Many Requests''"
  show ?thesis
  proof (cases "credentials e")
    case True
    then show ?thesis using a Suc by (simp add: sendMessage_def getCredentials_def request_def)
  next
    case False
    have nr: "\<not> str_includes ''Telegram credentials not configured'' ''Too Many Requests''"
      by (simp add: str_includes_def sublist_code prefix_code)
    have fail: "fst (retryLoop e j v) = False" if "\<not> credentials e" for j v
      using that nr by (induction j arbitrary: v) (simp_all add: sendMessage_def getCredentials_def)
    show ?thesis by (rule fail[OF False])
  qed
qed

lemma sendMessageWithRetry_all_fail:
  assumes "\<forall>n. api w n \<noteq> Ok"
  shows "fst (sendMessageWithRetry lim e w) \<noteq> Inr True"
proof (cases "posting lim")
  case None
  then show ?thesis by (simp add: sendMessageWithRetry_def)
next
  case (Some p)
  obtain b w1 where r: "retryLoop e (attemptsOf p) w = (b, w1)"
    by (cases "retryLoop e (attemptsOf p) w")
  with retryLoop_all_fail[OF assms, of e "attemptsOf p"] have "b = False" by simp
  then show ?thesis using Some r by (simp add: sendMessageWithRetry_def)
qed

lemma sendMessageWithRetry_rate_limited:
  assumes "api w (step w) = Throws message" and "str_includes message ''Too Many Requests''"
  shows "fst (sendMessageWithRetry lim e w) \<noteq> Inr True"
proof (cases "posting lim")
  case None
  then show ?thesis by (simp add: sendMessageWithRetry_def)
next
  case (Some p)
  obtain b w1 where r: "retryLoop e (attemptsOf p) w = (b, w1)"
    by (cases "retryLoop e (attemptsOf p) w")
  with retryLoop_rate_limited[OF assms, of e "attemptsOf p"] have "b = False" by simp
  then show ?thesis using Some r by (simp add: sendMessageWithRetry_def)
qed

lemma postDeal_result:
  "fst (postDeal lim e url w) = Inr (fst (postDealBody lim e url w) = Inr True)"
  by (cases "postDealBody lim e url w") (auto simp: postDeal_def split: sum.splits)

text \<open>
  Claim C10. \<open>postDeal\<close> never raises: whatever the image, the configuration and the
  answers of the Bot API, it returns a boolean. Every failure becomes the value false:
  when no request is answered with success (a failing photo and retries used up
  included) the result is false; when the text message is answered with the rate-limit
  error, directly or after a failed photo, the result is false, and with credentials and
  at least one attempt configured no further request is made.
\<close>

theorem postDeal_never_raises:
  "(\<exists>success w1. postDeal lim e url w = (Inr success, w1))
   \<and> ((\<forall>n. api w n \<noteq> Ok) \<longrightarrow> fst (postDeal lim e url w) = Inr False)
   \<and> ((falsy url \<or> \<not> prefix ''http'' (jsString url))
        \<and> api w (step w) = Throws message \<and> str_includes message ''Too Many Requests''
      \<longrightarrow> fst (postDeal lim e url w) = Inr False
          \<and> (credentials e \<and> posting lim = Some p \<and> 0 < attemptsOf p
               \<longrightarrow> snd (postDeal lim e url w) = await w))
   \<and> (\<not> falsy url \<and> prefix ''http'' (jsString url)
        \<and> api w (step w) = Throws photoError
        \<and> api w (Suc (step w)) = Throws message \<and> str_includes message ''Too Many Requests''
      \<longrightarrow> fst (postDeal lim e url w) = Inr False)"
proof (intro conjI impI)
  show "\<exists>success w1. postDeal lim e url w = (Inr success, w1)"
    by (cases "postDealBody lim e url w") (auto simp: postDeal_def split: sum.splits)
next
  assume a: "\<forall>n. api w n \<noteq> Ok"
  then have a': "\<forall>n. api (await w) n \<noteq> Ok" by simp
  have "fst (postDealBody lim e url w) \<noteq> Inr True"
    using a sendMessageWithRetry_all_fail[OF a, of lim e] sendMessageWithRetry_all_fail[OF a', of lim e]
    by (auto simp: postDealBody_def sendPhoto_def getCredentials_def request_def
        split: sum.splits reply.splits prod.splits bool.splits)
  then show "fst (postDeal lim e url w) = Inr False" by (simp add: postDeal_result)
next
  assume a: "(falsy url \<or> \<not> prefix ''http'' (jsString url))
        \<and> api w (step w) = Throws message \<and> str_includes message ''Too Many Requests''"
  have body: "postDealBody lim e url w = sendMessageWithRetry lim e w"
    using a by (auto simp: postDealBody_def)
  have "fst (sendMessageWithRetry lim e w) \<noteq> Inr True"
    using a by (intro sendMessageWithRetry_rate_limited) auto
  then show "fst (postDeal lim e url w) = Inr False" by (simp add: postDeal_result body)
next
  assume a: "(falsy url \<or> \<not> prefix ''http'' (jsString url))
        \<and> api w (step w) = Throws message \<and> str_includes message ''Too Many Requests''"
    and b: "credentials e \<and> posting lim = Some p \<and> 0 < attemptsOf p"
  have body: "postDealBody lim e url w = sendMessageWithRetry lim e w"
    using a by (auto simp: postDealBody_def)
  obtain k where k: "attemptsOf p = Suc k" using b by (cases "attemptsOf p") auto
  show "snd (postDeal lim e url w) = await w"
    using a b k
    by (simp add: postDeal_def body sendMessageWithRetry_def sendMessage_def
        getCredentials_def request_def)
next
  assume a: "\<not> falsy url \<and> prefix ''http'' (jsString url)
        \<and> api w (step w) = Throws photoError
        \<and> api w (Suc (step w)) = Throws message \<and> str_includes message ''Too Many Requests''"
  have st: "api (await w) (step (await w)) = Throws message" using a by (simp add: await_def)
  have "fst (postDealBody lim e url w) \<noteq> Inr True"
    using a sendMessageWithRetry_rate_limited[OF st, of lim e]
    by (auto simp: postDealBody_def sendPhoto_def getCredentials_def request_def
        split: sum.splits reply.splits prod.splits bool.splits)
  then show "fst (postDeal lim e url w) = Inr False" by (simp add: postDeal_result)
qed

theorem postDeal_never_raises_witness:
  "postDeal readmeLimits plainEnv None (rateLimitedSecond\<lparr>step := 2\<rparr>)
     = (Inr False, await (rateLimitedSecond\<lparr>step := 2\<rparr>))"
proof -
  let ?w = "rateLimitedSecond\<lparr>step := 2\<rparr>"
  have inc: "str_includes ''Too Many Requests: retry after 30'' ''Too Many Requests''"
    by (simp add: str_includes_def sublist_code prefix_code)
  have a: "api ?w (step ?w) = Throws ''Too Many Requests: retry after 30''"
    by (simp add: rateLimitedSecond_def)
  have p: "posting readmeLimits
             = Some \<lparr>postsPerSlot = Some 4, retryOnFailure = True, maxRetries = Some 2\<rparr>"
    by (simp add: readmeLimits_def)
  have "fst (postDeal readmeLimits plainEnv None ?w) = Inr False
        \<and> snd (postDeal readmeLimits plainEnv None ?w) = await ?w"
    using postDeal_never_raises[of readmeLimits plainEnv None ?w
        "''Too Many Requests: retry after 30''"
        "\<lparr>postsPerSlot = Some 4, retryOnFailure = True, maxRetries = Some 2\<rparr>"] inc a p
    by (simp add: falsy_def plainEnv_def attemptsOf_def)
  then show ?thesis by (metis prod.collapse)
qed

lemma postOne_break:
  "jsGe (Some (int (posted r))) target \<Longrightarrow> postOne lim e target p (r, mods, w) = (Break, r, mods, w)"
  by (simp add: postOne_def)

lemma canPost_snd: "snd (canPost e lim now s k c) = initCounters False now c"
  by (simp add: canPost_def Let_def)

lemma postOne_skip:
  "\<not> jsGe (Some (int (posted r))) target \<Longrightarrow>
   \<not> allowed (fst (canPost e lim (nowOf w) (source p) (categoryKey p) (dailyCounters mods))) \<Longrightarrow>
   postOne lim e target p (r, mods, w)
     = (Continue, r\<lparr>skipped := skipped r + 1\<rparr>,
        mods\<lparr>dailyCounters := initCounters False (nowOf w) (dailyCounters mods)\<rparr>, w)"
  using canPost_snd[of e lim "nowOf w" "source p" "categoryKey p" "dailyCounters mods"]
  by (cases "canPost e lim (nowOf w) (source p) (categoryKey p) (dailyCounters mods)")
     (simp add: postOne_def)

lemma postOne_duplicate:
  "\<not> jsGe (Some (int (posted r))) target \<Longrightarrow>
   allowed (fst (canPost e lim (nowOf w) (source p) (categoryKey p) (dailyCounters mods))) \<Longrightarrow>
   fst (isDuplicate lim (nowOf w) (id' p) (source p) (postedProducts mods)) \<Longrightarrow>
   postOne lim e target p (r, mods, w)
     = (Continue, r\<lparr>skipped := skipped r + 1\<rparr>,
        \<lparr>dailyCounters = initCounters False (nowOf w) (dailyCounters mods),
         postedProducts = snd (isDuplicate lim (nowOf w) (id' p) (source p) (postedProducts mods))\<rparr>, w)"
  using canPost_snd[of e lim "nowOf w" "source p" "categoryKey p" "dailyCounters mods"]
  by (cases "canPost e lim (nowOf w) (source p) (categoryKey p) (dailyCounters mods)";
      cases "isDuplicate lim (nowOf w) (id' p) (source p) (postedProducts mods)")
     (simp add: postOne_def)

lemma postOne_success:
  "\<not> jsGe (Some (int (posted r))) target \<Longrightarrow>
   allowed (fst (canPost e lim (nowOf w) (source p) (categoryKey p) (dailyCounters mods))) \<Longrightarrow>
   \<not> fst (isDuplicate lim (nowOf w) (id' p) (source p) (postedProducts mods)) \<Longrightarrow>
   fst (postDeal lim e (imageUrl p) w) = Inr True \<Longrightarrow>
   name p \<noteq> None \<Longrightarrow> posting lim \<noteq> None \<Longrightarrow>
   postOne lim e target p (r, mods, w)
     = (Continue, bumpResult (source p) (r\<lparr>posted := posted r + 1\<rparr>),
        \<lparr>dailyCounters =
           incrementCounters (nowOf (snd (postDeal lim e (imageUrl p) w))) (source p) (categoryKey p)
             (initCounters False (nowOf w) (dailyCounters mods)),
         postedProducts =
           markPosted (nowOf (snd (postDeal lim e (imageUrl p) w))) (id' p) (source p)
             (snd (isDuplicate lim (nowOf w) (id' p) (source p) (postedProducts mods)))\<rparr>,
        await (snd (postDeal lim e (imageUrl p) w)))"
  using canPost_snd[of e lim "nowOf w" "source p" "categoryKey p" "dailyCounters mods"]
  by (cases "canPost e lim (nowOf w) (source p) (categoryKey p) (dailyCounters mods)";
      cases "isDuplicate lim (nowOf w) (id' p) (source p) (postedProducts mods)";
      cases "postDeal lim e (imageUrl p) w")
     (auto simp: postOne_def postDelay_def Let_def)

lemma postOne_failed:
  "\<not> jsGe (Some (int (posted r))) target \<Longrightarrow>
   allowed (fst (canPost e lim (nowOf w) (source p) (categoryKey p) (dailyCounters mods))) \<Longrightarrow>
   \<not> fst (isDuplicate lim (nowOf w) (id' p) (source p) (postedProducts mods)) \<Longrightarrow>
   fst (postDeal lim e (imageUrl p) w) = Inr False \<Longrightarrow>
   postOne lim e target p (r, mods, w)
     = (Continue,
        r\<lparr>failed := failed r + 1, errors := errors r @ [''Failed to post: '' @ jsString (id' p)]\<rparr>,
        \<lparr>dailyCounters = initCounters False (nowOf w) (dailyCounters mods),
         postedProducts = snd (isDuplicate lim (nowOf w) (id' p) (source p) (postedProducts mods))\<rparr>,
        snd (postDeal lim e (imageUrl p) w))"
  using canPost_snd[of e lim "nowOf w" "source p" "categoryKey p" "dailyCounters mods"]
  by (cases "canPost e lim (nowOf w) (source p) (categoryKey p) (dailyCounters mods)";
      cases "isDuplicate lim (nowOf w) (id' p) (source p) (postedProducts mods)";
      cases "postDeal lim e (imageUrl p) w")
     (auto simp: postOne_def)

lemma postDeal_ok:
  assumes "credentials e" "posting lim = Some pc" "0 < attemptsOf pc" "api w (step w) = Ok"
  shows "postDeal lim e url w = (Inr True, await w)"
proof -
  obtain k where k: "attemptsOf pc = Suc k" using assms(3) by (cases "attemptsOf pc") auto
  show ?thesis using assms k
    by (simp add: postDeal_def postDealBody_def sendPhoto_def sendMessageWithRetry_def
        sendMessage_def getCredentials_def request_def)
qed

lemma postDeal_text_rate_limited:
  assumes "credentials e" "posting lim = Some pc" "0 < attemptsOf pc"
    and "falsy url \<or> \<not> prefix ''http'' (jsString url)"
    and "api w (step w) = Throws message" "str_includes message ''Too Many Requests''"
  shows "postDeal lim e url w = (Inr False, await w)"
proof -
  obtain k where k: "attemptsOf pc = Suc k" using assms(3) by (cases "attemptsOf pc") auto
  show ?thesis using assms k
    by (auto simp add: postDeal_def postDealBody_def sendMessageWithRetry_def
        sendMessage_def getCredentials_def request_def)
qed







text \<open>The definitions to unfold when a concrete run is evaluated.\<close>

lemmas run_eval =
  getPostsForSession_def getTotalLimit_def isSaleMode_def initCounters_def resetCounters_def
  todayOf_def orDefault_def nowOf_def noResults_def canPost_def jsGe_def sourceCount_def
  categoryCount_def sourceLimitOf_def categoryLimitOf_def protoNames_def propGe_def
  toNumber_def isDuplicate_def
  isPosted_def uniqueKey_def jsString_def falsy_def toLowerCase_def toLowerChar_def
  attemptsOf_def await_def str_includes_def sublist_code prefix_code bumpResult_def
  markPosted_def incrementCounters_def bumpSource_def bumpCategory_def Let_def TTL_MS_def
  TTL_DAYS_def

text \<open>
  The body of the loop ends the loop in one case only: the session target is reached.
  An answer of the transport never ends it, since \<open>postDeal\<close> returns a boolean and the
  two TypeError messages do not mention the rate limit.
\<close>

lemma postDeal_is_Inr: "\<exists>b. fst (postDeal lim e url w) = Inr b"
  by (cases "postDealBody lim e url w") (auto simp: postDeal_def split: sum.splits)

lemma typeErrors_not_rate_limit:
  "\<not> str_includes ''Cannot read properties of undefined (reading 'substring')'' ''Too Many Requests''"
  "\<not> str_includes ''Cannot read properties of undefined (reading 'delayBetweenPostsMs')'' ''Too Many Requests''"
  by (simp_all add: str_includes_def sublist_code prefix_code)

lemma postOne_breaks_only_at_target:
  "fst (postOne lim e target p (r, mods, w)) = Break \<longleftrightarrow> jsGe (Some (int (posted r))) target"
proof (cases "jsGe (Some (int (posted r))) target")
  case True
  then show ?thesis by (simp add: postOne_def)
next
  case False
  obtain b where b: "fst (postDeal lim e (imageUrl p) w) = Inr b"
    using postDeal_is_Inr by blast
  obtain w1 where pd: "postDeal lim e (imageUrl p) w = (Inr b, w1)"
    using b by (cases "postDeal lim e (imageUrl p) w") auto
  show ?thesis
    using False pd typeErrors_not_rate_limit
    by (auto simp: postOne_def onError_def postDelay_def Let_def
        split: prod.splits option.splits bool.splits)
qed

text \<open>
  Claim C3 asks that a rate-limit answer of the transport ends the posting loop. The code
  does not do that: \<open>postDeal\<close> turns the rate-limit error into the value false, the
  loop records one failed post and goes on. In the run of five candidates in which the
  second post attempt is answered with the rate-limit error, the third, fourth and
  fifth candidates are attempted and posted: 4 posted, 1 failed, none skipped.
\<close>

theorem rate_limited_run_continues:
  "fst (postProducts readmeLimits plainEnv fiveCandidates (freshModules, rateLimitedSecond))
     = \<lparr>posted = 4, skipped = 0, failed = 1, flipkart' = 4, amazon' = 0,
        errors = [''Failed to post: F2'']\<rparr>"
  by (simp add: postProducts_def fiveCandidates_def freshModules_def rateLimitedSecond_def
      postOne_success postOne_failed postOne_break postOne_skip postOne_duplicate
      postDeal_ok[where pc="\<lparr>postsPerSlot = Some 4, retryOnFailure = True, maxRetries = Some 2\<rparr>"]
      postDeal_text_rate_limited[where pc="\<lparr>postsPerSlot = Some 4, retryOnFailure = True, maxRetries = Some 2\<rparr>"]
      readmeLimits_def plainEnv_def run_eval)









text \<open>
  Claim C5, as amended. Every quota operation of the posting loop re-checks the calendar
  day when it is called. While the day of the clock is the day stamped on the counters,
  \<open>canPost\<close> and \<open>getPostsForSession\<close> leave the counters as they are and
  \<open>incrementCounters\<close> only adds one to the total, the source and the category. When the
  day differs, each of them first replaces the counters by all-zero counters stamped
  with the new day, in the middle of a run as well.
\<close>

theorem quota_operations_recheck_day:
  "(date c = Some (todayOf now) \<longrightarrow>
      snd (canPost e lim now src key c) = c
      \<and> snd (getPostsForSession e lim now c) = c
      \<and> incrementCounters now src key c
          = bumpCategory key (bumpSource src (c\<lparr>total := total c + 1\<rparr>)))
   \<and> (date c \<noteq> Some (todayOf now) \<longrightarrow>
      snd (canPost e lim now src key c) = initCounters True now c
      \<and> snd (getPostsForSession e lim now c) = initCounters True now c
      \<and> incrementCounters now src key c = incrementCounters now src key (initCounters True now c)
      \<and> total (initCounters True now c) = 0
      \<and> flipkart (initCounters True now c) = 0 \<and> amazon (initCounters True now c) = 0
      \<and> byCategory (initCounters True now c) = Map.empty
      \<and> date (initCounters True now c) = Some (todayOf now))"
  by (simp add: canPost_def getPostsForSession_def incrementCounters_def initCounters_def Let_def)

theorem quota_operations_recheck_day_witness:
  "snd (canPost plainEnv readmeLimits 86399000 ''flipkart'' ''mobiles'' (dailyCounters threePosted))
     = dailyCounters threePosted
   \<and> total (snd (canPost plainEnv readmeLimits 86401000 ''flipkart'' ''mobiles''
        (dailyCounters threePosted))) = 0"
  using quota_operations_recheck_day[of "dailyCounters threePosted" 86399000 plainEnv readmeLimits
      "''flipkart''" "''mobiles''"]
    quota_operations_recheck_day[of "dailyCounters threePosted" 86401000 plainEnv readmeLimits
      "''flipkart''" "''mobiles''"]
  by (simp add: threePosted_def todayOf_def)

text \<open>
  The claim as first stated says that the counters are never reset in the middle of a
  run. In a run that starts before midnight with three posts counted and whose first
  request returns after midnight, \<open>incrementCounters\<close> resets the counters: after one
  more post the total is 1.
\<close>

theorem day_change_resets_counters_counterexample:
  "total (dailyCounters threePosted) = 3
   \<and> posted (fst (postProducts readmeLimits plainEnv [candidateA1] (threePosted, overMidnight))) = 1
   \<and> total (dailyCounters (fst (snd
        (postProducts readmeLimits plainEnv [candidateA1] (threePosted, overMidnight))))) = 1"
  by (simp add: postProducts_def candidateA1_def threePosted_def overMidnight_def
      postOne_success postOne_failed postOne_break postOne_skip postOne_duplicate
      postDeal_ok[where pc="\<lparr>postsPerSlot = Some 4, retryOnFailure = True, maxRetries = Some 2\<rparr>"]
      readmeLimits_def plainEnv_def run_eval)

end
